theory Spec2Isabelle
  imports Main "HOL-Library.Sublist"
begin

section \<open>Python values and built-ins\<close>

text \<open>
  The fields typed \<open>Any\<close> in the source hold Python objects. The model keeps the
  scalars the code inspects (None, the PydanticUndefined sentinel, bool, int, str) as
  they are; floating-point numbers and every other object are opaque, and the Python
  built-ins applied to them are taken as a parameter (a record \<open>builtins\<close>):
  \<open>str\<close>, \<open>float\<close>, \<open>bool\<close> and \<open>==\<close> on floats and objects, the
  \<open>str\<close> of a list of strings, the pairs \<open>dict.update\<close> reads from its argument,
  and the text pydantic renders for a validation error. Wall-clock readings
  (\<open>started_at\<close>, \<open>finished_at\<close>) and logging are left out.

  A function that can raise returns \<open>error + 'a\<close>, with \<open>Inl\<close> for the exception;
  \<open>error\<close> lists the exceptions (all subclasses of \<open>Exception\<close>) that the code
  raises or lets through. A function that can loop forever returns an \<open>option\<close>
  around that, \<open>None\<close> standing for a call that never returns. A method that
  assigns to its object returns the object as it left it. Strings are lists of
  characters. Record fields carry a prefix naming their class (\<open>p_\<close> Parameter,
  \<open>sc_\<close> a step class, \<open>bs_\<close> BaseStep, \<open>ws_\<close> WorkflowStep, \<open>wf_\<close>
  WorkflowDef, \<open>sr_\<close> WorkflowStepResult, \<open>rr_\<close> WorkflowRunResult, \<open>ve_\<close>
  ValidationError), and the two members SUCCESS and FAILURE of WorkflowStepStatus are
  written \<open>STEP_SUCCESS\<close> and \<open>STEP_FAILURE\<close>.
\<close>

typedecl pyfloat
typedecl pyobj

datatype pyval =
    PNone
  | PUndefined
  | PBool bool
  | PInt int
  | PFloat pyfloat
  | PStr string
  | PObj pyobj

datatype error =
    ValueReferenceError string string "string list"
  | ValueError string
  | TypeError string
  | AssertionError
  | NotImplementedError
  | AttributeError string
  | RuntimeError string
  | KeyError string
  | OverflowError string
  | PydanticValidationError string
  | ExternalError string

type_synonym 'v dict = "(string \<times> 'v) list"

record builtins =
  str_float :: "pyfloat \<Rightarrow> string"
  str_obj :: "pyobj \<Rightarrow> string"
  repr_list :: "string list \<Rightarrow> string"
  float_of_int :: "int \<Rightarrow> error + pyfloat"
  float_of_str :: "string \<Rightarrow> error + pyfloat"
  float_of_obj :: "pyobj \<Rightarrow> error + pyfloat"
  bool_float :: "pyfloat \<Rightarrow> bool"
  bool_obj :: "pyobj \<Rightarrow> bool"
  eq_float :: "pyfloat \<Rightarrow> pyfloat \<Rightarrow> bool"
  eq_float_int :: "pyfloat \<Rightarrow> int \<Rightarrow> bool"
  eq_obj :: "pyobj \<Rightarrow> pyval \<Rightarrow> bool"
  type_name_obj :: "pyobj \<Rightarrow> string"
  dict_items :: "pyval \<Rightarrow> error + pyval dict"
  validation_message :: "string \<Rightarrow> string"

text \<open>Dictionaries keep insertion order: association lists with one entry per key.\<close>

definition dict_get :: "'v dict \<Rightarrow> string \<Rightarrow> 'v option" where
  "dict_get d k = map_of d k"

fun dict_set :: "'v dict \<Rightarrow> string \<Rightarrow> 'v \<Rightarrow> 'v dict" where
  "dict_set [] k v = [(k, v)]"
| "dict_set ((k', v') # d) k v =
     (if k' = k then (k, v) # d else (k', v') # dict_set d k v)"

definition dict_keys :: "'v dict \<Rightarrow> string list" where
  "dict_keys d = map fst d"

text \<open>\<open>context.get(key)\<close>: the stored value, or None when the key is missing.\<close>

definition py_get :: "pyval dict \<Rightarrow> string \<Rightarrow> pyval" where
  "py_get d k = (case dict_get d k of None \<Rightarrow> PNone | Some v \<Rightarrow> v)"

text \<open>\<open>str(n)\<close> for an integer.\<close>

definition digit_char :: "nat \<Rightarrow> char" where
  "digit_char d = ''0123456789'' ! d"

fun str_nat :: "nat \<Rightarrow> string" where
  "str_nat n = (if n < 10 then [digit_char n] else str_nat (n div 10) @ [digit_char (n mod 10)])"

declare str_nat.simps [simp del]

definition str_int :: "int \<Rightarrow> string" where
  "str_int i = (if i < 0 then CHR ''-'' # str_nat (nat (- i)) else str_nat (nat i))"

fun py_str :: "builtins \<Rightarrow> pyval \<Rightarrow> string" where
  "py_str F PNone = ''None''"
| "py_str F PUndefined = ''PydanticUndefined''"
| "py_str F (PBool b) = (if b then ''True'' else ''False'')"
| "py_str F (PInt i) = str_int i"
| "py_str F (PFloat x) = str_float F x"
| "py_str F (PStr s) = s"
| "py_str F (PObj x) = str_obj F x"

text \<open>\<open>", ".join(xs)\<close>\<close>

fun join :: "string \<Rightarrow> string list \<Rightarrow> string" where
  "join sep [] = []"
| "join sep [x] = x"
| "join sep (x # y # ys) = x @ sep @ join sep (y # ys)"

text \<open>
  \<open>s.replace(old, new)\<close>: every non-overlapping occurrence of \<open>old\<close>, found left to
  right, is replaced; an empty \<open>old\<close> matches before every character and at the end.
\<close>

function py_replace :: "string \<Rightarrow> string \<Rightarrow> string \<Rightarrow> string" where
  "py_replace s old new =
     (if old = [] then new @ concat (map (\<lambda>c. c # new) s)
      else if s = [] then []
      else if prefix old s then new @ py_replace (drop (length old) s) old new
      else hd s # py_replace (tl s) old new)"
  by pat_completeness auto
termination
  by (relation "measure (\<lambda>(s, old, new). length s)") auto

declare py_replace.simps [simp del]

section \<open>Variable resolution (steps/base.py)\<close>

text \<open>
  The pattern of \<open>fill_value\<close> is
  \<^verbatim>\<open>@\<close>\<^verbatim>\<open>{[\ ]*([a-zA-Z0-9_]+)[\ ]*\.[\ ]*([a-zA-Z0-9_]+)[\ ]*}\<close>.
  Each starred or plussed class is followed by a character outside that class, so the
  greedy match at a position is the only match there: \<open>match_at\<close> reads the longest run
  of each class in turn and returns the whole match and the two groups.
  \<open>re_search\<close> is \<open>re.search\<close>: the match at the leftmost position that has one.
\<close>

abbreviation (input) at_brace :: string where
  "at_brace \<equiv> [CHR ''@'', CHR ''{'']"

definition is_space :: "char \<Rightarrow> bool" where
  "is_space c = (c = CHR '' '')"

definition is_word_char :: "char \<Rightarrow> bool" where
  "is_word_char c =
     (let n = (of_char c :: nat) in
      (97 \<le> n \<and> n \<le> 122) \<or> (65 \<le> n \<and> n \<le> 90) \<or> (48 \<le> n \<and> n \<le> 57) \<or> n = 95)"

definition match_at :: "string \<Rightarrow> (string \<times> string \<times> string) option" where
  "match_at s =
     (if \<not> prefix at_brace s then None
      else
        let r0 = drop 2 s;
            sp1 = takeWhile is_space r0; r1 = dropWhile is_space r0;
            g1 = takeWhile is_word_char r1; r2 = dropWhile is_word_char r1;
            sp2 = takeWhile is_space r2; r3 = dropWhile is_space r2
        in if g1 = [] \<or> \<not> prefix ''.'' r3 then None
           else
             let r4 = drop 1 r3;
                 sp3 = takeWhile is_space r4; r5 = dropWhile is_space r4;
                 g2 = takeWhile is_word_char r5; r6 = dropWhile is_word_char r5;
                 sp4 = takeWhile is_space r6; r7 = dropWhile is_space r6
             in if g2 = [] \<or> \<not> prefix ''}'' r7 then None
                else Some (at_brace @ sp1 @ g1 @ sp2 @ ''.'' @ sp3 @ g2 @ sp4 @ ''}'', g1, g2))"

fun re_search :: "string \<Rightarrow> (string \<times> string \<times> string) option" where
  "re_search [] = None"
| "re_search (c # cs) =
     (case match_at (c # cs) of Some m \<Rightarrow> Some m | None \<Rightarrow> re_search cs)"

partial_function (option) fill_loop ::
  "builtins \<Rightarrow> pyval dict \<Rightarrow> string \<Rightarrow> string \<Rightarrow> (error + pyval) option" where
  "fill_loop F context current_step_name value_str =
     (case re_search value_str of
        None \<Rightarrow> Some (Inr (PStr value_str))
      | Some (group0, step_name, parameter_name) \<Rightarrow>
          (let value = py_get context (step_name @ ''.'' @ parameter_name)
           in if value = PNone then
                Some (Inl (ValueReferenceError current_step_name
                             (step_name @ ''.'' @ parameter_name) (dict_keys context)))
              else fill_loop F context current_step_name
                     (py_replace value_str group0 (py_str F value))))"

definition fill_value ::
  "builtins \<Rightarrow> pyval \<Rightarrow> pyval dict \<Rightarrow> string \<Rightarrow> (error + pyval) option" where
  "fill_value F value context current_step_name =
     (case value of
        PStr value_str \<Rightarrow> fill_loop F context current_step_name value_str
      | _ \<Rightarrow> Some (Inr value))"

text \<open>
  The grammar of a reference token as the specification words it: \<open>@\<close> and \<open>{\<close>, a run of
  blanks, a step name, blanks, a dot, blanks, a parameter name, blanks, \<open>}\<close>, where a
  name is a non-empty string over \<open>[a-zA-Z0-9_]\<close>.
\<close>

definition reference_token ::
  "string \<Rightarrow> string \<Rightarrow> string \<Rightarrow> string \<Rightarrow> string \<Rightarrow> string \<Rightarrow> string" where
  "reference_token sp1 sn sp2 sp3 pn sp4 =
     at_brace @ sp1 @ sn @ sp2 @ ''.'' @ sp3 @ pn @ sp4 @ ''}''"

definition is_name :: "string \<Rightarrow> bool" where
  "is_name w = (w \<noteq> [] \<and> list_all is_word_char w)"

text \<open>The number of \<open>@\<close> characters of a string (the measure of the resolution loop).\<close>

definition count_at :: "string \<Rightarrow> nat" where
  "count_at s = length (filter (\<lambda>c. c = CHR ''@'') s)"

section \<open>More built-ins\<close>

text \<open>\<open>float(v)\<close>, \<open>bool(v)\<close>, \<open>type(v).__name__\<close> and \<open>a == b\<close>.\<close>

definition py_float :: "builtins \<Rightarrow> pyval \<Rightarrow> error + pyfloat" where
  "py_float F v =
     (case v of
        PNone \<Rightarrow> Inl (TypeError (''float() argument must be a string or a real number, not ''
                          @ [CHR 0x27] @ ''NoneType'' @ [CHR 0x27]))
      | PUndefined \<Rightarrow> Inl (TypeError (''float() argument must be a string or a real number, not ''
                          @ [CHR 0x27] @ ''PydanticUndefinedType'' @ [CHR 0x27]))
      | PBool b \<Rightarrow> float_of_int F (if b then 1 else 0)
      | PInt i \<Rightarrow> float_of_int F i
      | PFloat x \<Rightarrow> Inr x
      | PStr s \<Rightarrow> float_of_str F s
      | PObj x \<Rightarrow> float_of_obj F x)"

definition py_bool :: "builtins \<Rightarrow> pyval \<Rightarrow> bool" where
  "py_bool F v =
     (case v of
        PNone \<Rightarrow> False
      | PUndefined \<Rightarrow> True
      | PBool b \<Rightarrow> b
      | PInt i \<Rightarrow> i \<noteq> 0
      | PFloat x \<Rightarrow> bool_float F x
      | PStr s \<Rightarrow> s \<noteq> []
      | PObj x \<Rightarrow> bool_obj F x)"

definition type_name :: "builtins \<Rightarrow> pyval \<Rightarrow> string" where
  "type_name F v =
     (case v of
        PNone \<Rightarrow> ''NoneType''
      | PUndefined \<Rightarrow> ''PydanticUndefinedType''
      | PBool b \<Rightarrow> ''bool''
      | PInt i \<Rightarrow> ''int''
      | PFloat x \<Rightarrow> ''float''
      | PStr s \<Rightarrow> ''str''
      | PObj x \<Rightarrow> type_name_obj F x)"

definition as_int :: "pyval \<Rightarrow> int option" where
  "as_int v = (case v of PBool b \<Rightarrow> Some (if b then 1 else 0) | PInt i \<Rightarrow> Some i | _ \<Rightarrow> None)"

definition py_eq :: "builtins \<Rightarrow> pyval \<Rightarrow> pyval \<Rightarrow> bool" where
  "py_eq F a b =
     (case (a, b) of
        (PObj x, _) \<Rightarrow> eq_obj F x b
      | (_, PObj y) \<Rightarrow> eq_obj F y a
      | (PFloat x, PFloat y) \<Rightarrow> eq_float F x y
      | (PFloat x, _) \<Rightarrow> (case as_int b of Some i \<Rightarrow> eq_float_int F x i | None \<Rightarrow> False)
      | (_, PFloat y) \<Rightarrow> (case as_int a of Some i \<Rightarrow> eq_float_int F y i | None \<Rightarrow> False)
      | (PStr s, PStr t) \<Rightarrow> s = t
      | (PNone, PNone) \<Rightarrow> True
      | (PUndefined, PUndefined) \<Rightarrow> True
      | _ \<Rightarrow> (case (as_int a, as_int b) of (Some i, Some j) \<Rightarrow> i = j | _ \<Rightarrow> False))"

text \<open>\<open>v in xs\<close> for a list of strings.\<close>

definition py_in :: "builtins \<Rightarrow> pyval \<Rightarrow> string list \<Rightarrow> bool" where
  "py_in F v xs = list_ex (\<lambda>x. py_eq F v (PStr x)) xs"

text \<open>\<open>str(e)\<close> for an exception.\<close>

definition exn_str :: "builtins \<Rightarrow> error \<Rightarrow> string" where
  "exn_str F e =
     (case e of
        ValueReferenceError step_name incorrect_variable available_variables \<Rightarrow>
          ''Value for '' @ step_name @ ''.'' @ incorrect_variable @ '' not found, ''
            @ ''available variables are: '' @ join '', '' available_variables
      | ValueError m \<Rightarrow> m
      | TypeError m \<Rightarrow> m
      | AssertionError \<Rightarrow> ''''
      | NotImplementedError \<Rightarrow> ''''
      | AttributeError m \<Rightarrow> m
      | RuntimeError m \<Rightarrow> m
      | KeyError k \<Rightarrow> [CHR 0x27] @ k @ [CHR 0x27]
      | OverflowError m \<Rightarrow> m
      | PydanticValidationError m \<Rightarrow> validation_message F m
      | ExternalError m \<Rightarrow> m)"

section \<open>The parameter model (types.py)\<close>

datatype WorkflowRunStatus = SUBMITTED | RUNNING | SUCCESS | FAILURE | CANCELLED

datatype ParameterDataType =
  STRING | MARKDOWN | NUMBER | BOOLEAN | OBJECT | DATETIME | FILE | OPTION | OUTPUT

datatype WorkflowStepStatus = STEP_SUCCESS | STEP_FAILURE

datatype FileTypes = PDF | MP3 | PNG | ICS

datatype InputPermissionLevel = READ_ONLY | READ_WRITE | NO_ACCESS

record Parameter =
  p_name :: string
  p_data_type :: ParameterDataType
  p_value :: pyval
  p_optional :: bool
  p_default :: pyval
  p_description :: "string option"
  p_content_type :: "FileTypes option"
  p_choices :: "string list option"
  p_invisible :: bool
  p_mention_data_only :: bool

record InputParameter = Parameter +
  user_permission :: "InputPermissionLevel option"

text \<open>\<open>Parameter(name=n, data_type=t)\<close>: every other field at its declared default.\<close>

definition new_Parameter :: "string \<Rightarrow> ParameterDataType \<Rightarrow> Parameter" where
  "new_Parameter n t =
     \<lparr> p_name = n, p_data_type = t, p_value = PNone, p_optional = False, p_default = PNone,
       p_description = None, p_content_type = None, p_choices = None, p_invisible = False,
       p_mention_data_only = False \<rparr>"

text \<open>
  The property \<open>v\<close>: the parsed value of the parameter, the default when no value is
  set.
\<close>

definition Parameter_v :: "builtins \<Rightarrow> 'a Parameter_scheme \<Rightarrow> error + pyval" where
  "Parameter_v F self =
     (let v = p_value self;
          v = (if v = PNone then p_default self else v);
          v = (if v = PUndefined then PNone else v)
      in if p_data_type self = STRING then Inr (PStr (py_str F v))
         else if p_data_type self = NUMBER then
           (if v \<noteq> PNone then map_sum id PFloat (py_float F v) else Inr PNone)
         else if p_data_type self = BOOLEAN then Inr (PBool (py_bool F v))
         else Inr v)"

text \<open>
  The three model validators declared \<open>mode="after"\<close>. pydantic runs them, in this
  order, when a Parameter is built and (the class sets \<open>validate_assignment\<close>) on
  every assignment to a field; a ValueError they raise reaches the caller as a pydantic
  validation error.
\<close>

definition check_content_type_for_file ::
  "'a Parameter_scheme \<Rightarrow> error + 'a Parameter_scheme" where
  "check_content_type_for_file obj =
     (if p_data_type obj = FILE \<and> p_content_type obj = None
      then Inl (ValueError ''Content type is required for file parameter'')
      else Inr obj)"

definition check_choices_for_option ::
  "builtins \<Rightarrow> 'a Parameter_scheme \<Rightarrow> error + 'a Parameter_scheme" where
  "check_choices_for_option F obj =
     (if p_data_type obj = OPTION then
        (case p_choices obj of
           None \<Rightarrow> Inl (ValueError ''Choices are required for option parameter'')
         | Some cs \<Rightarrow>
             if cs = [] then Inl (ValueError ''Choices are required for option parameter'')
             else if p_default obj \<noteq> PNone \<and> \<not> py_in F (p_default obj) cs then
               Inl (ValueError (''Default value '' @ py_str F (p_default obj)
                      @ '' is not in the list of choices '' @ repr_list F cs))
             else Inr obj)
      else Inr obj)"

definition check_value_for_option ::
  "builtins \<Rightarrow> 'a Parameter_scheme \<Rightarrow> error + 'a Parameter_scheme" where
  "check_value_for_option F obj =
     (case p_choices obj of
        Some cs \<Rightarrow>
          if p_data_type obj = OPTION \<and> p_value obj \<noteq> PNone \<and> \<not> py_in F (p_value obj) cs then
            Inl (ValueError (''Value '' @ py_str F (p_value obj)
                   @ '' is not in the list of choices '' @ repr_list F cs))
          else Inr obj
      | None \<Rightarrow> Inr obj)"

definition as_validation_error :: "error \<Rightarrow> error" where
  "as_validation_error e = (case e of ValueError m \<Rightarrow> PydanticValidationError m | _ \<Rightarrow> e)"

definition validate_model ::
  "builtins \<Rightarrow> 'a Parameter_scheme \<Rightarrow> error + 'a Parameter_scheme" where
  "validate_model F obj =
     (case check_content_type_for_file obj of
        Inl e \<Rightarrow> Inl (as_validation_error e)
      | Inr obj1 \<Rightarrow>
          (case check_choices_for_option F obj1 of
             Inl e \<Rightarrow> Inl (as_validation_error e)
           | Inr obj2 \<Rightarrow>
               (case check_value_for_option F obj2 of
                  Inl e \<Rightarrow> Inl (as_validation_error e)
                | Inr obj3 \<Rightarrow> Inr obj3)))"

text \<open>
  The assignment \<open>p.value = x\<close> under \<open>validate_assignment\<close>. The field is
  validated first: the sentinel \<open>PydanticUndefined\<close> counts as no value given, so
  the field's default \<open>None\<close> is what gets stored. The value is then put into the
  object, and the validators declared \<open>mode="after"\<close> run on the object that
  already holds it: when one of them raises, the assignment raises and the object keeps the
  rejected value. So \<open>assign p x\<close> is the object after the assignment, whether it
  was accepted or not, and \<open>set_value\<close> is that object or the exception raised.
\<close>

definition stored :: "pyval \<Rightarrow> pyval" where
  "stored x = (if x = PUndefined then PNone else x)"

definition assign :: "'a Parameter_scheme \<Rightarrow> pyval \<Rightarrow> 'a Parameter_scheme" where
  "assign p x = p\<lparr>p_value := stored x\<rparr>"

definition set_value ::
  "builtins \<Rightarrow> 'a Parameter_scheme \<Rightarrow> pyval \<Rightarrow> error + 'a Parameter_scheme" where
  "set_value F p x = validate_model F (assign p x)"


definition get_dry_run_value :: "'a Parameter_scheme \<Rightarrow> error + pyval" where
  "get_dry_run_value self =
     (if p_data_type self \<notin> {STRING, NUMBER, BOOLEAN} then Inl AssertionError
      else if p_data_type self = STRING then Inr (PStr ''dummy'')
      else if p_data_type self = NUMBER then Inr (PInt 0)
      else Inr (PBool False))"

definition value_validation :: "builtins \<Rightarrow> 'a Parameter_scheme \<Rightarrow> error + string list" where
  "value_validation F self =
     (let errors = (if p_value self = PNone \<and> \<not> p_optional self
                    then [''Parameter '' @ p_name self @ '' is required''] else [])
      in if p_value self = PNone then Inr errors
         else if p_data_type self = STRING then
           (case p_value self of
              PStr s \<Rightarrow> Inr errors
            | _ \<Rightarrow> Inr (errors @ [''Invalid data type for '' @ p_name self @ '': ''
                        @ py_str F (p_value self) @ '', expected string, got ''
                        @ type_name F (p_value self)]))
         else if p_data_type self = NUMBER then
           (case p_value self of
              PBool b \<Rightarrow> Inr errors
            | PInt i \<Rightarrow> Inr errors
            | PFloat x \<Rightarrow> Inr errors
            | _ \<Rightarrow>
               (case py_float F (p_value self) of
                  Inl (ValueError m) \<Rightarrow>
                    Inr (errors @ [''Invalid data type for '' @ p_name self @ '': ''
                           @ py_str F (p_value self) @ '', expected number''])
                | Inl e \<Rightarrow> Inl e
                | Inr x \<Rightarrow> Inr errors))
         else Inr errors)"

text \<open>
  The contract of the resolved value as the specification words it: the value when it
  is set, the default otherwise, coerced to the declared data type.
\<close>

definition coerce_spec :: "builtins \<Rightarrow> ParameterDataType \<Rightarrow> pyval \<Rightarrow> error + pyval" where
  "coerce_spec F t x =
     (if t = STRING then Inr (PStr (py_str F x))
      else if t = NUMBER then map_sum id PFloat (py_float F x)
      else if t = BOOLEAN then Inr (PBool (py_bool F x))
      else Inr x)"

definition resolvedValue_spec :: "builtins \<Rightarrow> 'a Parameter_scheme \<Rightarrow> error + pyval" where
  "resolvedValue_spec F p =
     coerce_spec F (p_data_type p) (if p_value p \<noteq> PNone then p_value p else p_default p)"


record WorkflowStepResult =
  sr_step_name :: string
  sr_step_type :: string
  sr_status :: WorkflowStepStatus
  sr_status_reason :: "string option"
  sr_inputs :: "Parameter list"
  sr_outputs :: "Parameter list"

record WorkflowRunResult =
  rr_status :: WorkflowRunStatus
  rr_result :: "WorkflowStepResult list"

section \<open>Steps (steps/base.py, steps/dummy.py, steps/__init__.py)\<close>

text \<open>
  A step class: its class attributes, the qualified name of the \<open>__init__\<close> a call
  of the class runs, what that \<open>__init__\<close> does to the keyword arguments before
  \<open>BaseStep.__init__\<close> gets them (the \<open>output_names\<close> it passes on and the
  remaining keywords), and \<open>process\<close>, which reads the bound inputs and outputs
  of the instance and returns a dictionary or raises.
\<close>

record step_class =
  sc_class_name :: string
  sc_registered_names :: "string list"
  sc_input_parameters :: "Parameter list"
  sc_output_parameters :: "Parameter list"
  sc_allow_dynamic_outputs :: bool
  sc_init_name :: string
  sc_init :: "pyval dict \<Rightarrow> error + (string list option \<times> pyval dict)"
  sc_process :: "Parameter dict \<Rightarrow> Parameter dict \<Rightarrow> bool \<Rightarrow> error + pyval dict"

record BaseStep =
  bs_class :: step_class
  bs_name :: string
  bs_context :: "pyval option"
  bs_output_parameters :: "Parameter list"
  bs_inputs :: "Parameter dict"
  bs_outputs :: "Parameter dict"

text \<open>\<open>{k.name: copy.deepcopy(k) for k in ps}\<close>\<close>

definition by_name :: "Parameter list \<Rightarrow> Parameter dict" where
  "by_name ps = fold (\<lambda>k d. dict_set d (p_name k) k) ps []"

text \<open>A loop over the entries of a dictionary that assigns to the entry it visits.\<close>

fun for_each_entry ::
  "(string \<Rightarrow> 'a \<Rightarrow> error + 'a) \<Rightarrow> 'a dict \<Rightarrow> error + 'a dict" where
  "for_each_entry f [] = Inr []"
| "for_each_entry f ((k, p) # d) =
     (case f k p of
        Inl e \<Rightarrow> Inl e
      | Inr p' \<Rightarrow>
          (case for_each_entry f d of
             Inl e \<Rightarrow> Inl e
           | Inr d' \<Rightarrow> Inr ((k, p') # d')))"

text \<open>The loop of \<open>__init__\<close> that binds the keyword arguments to the inputs.\<close>

definition bind_kwarg :: "builtins \<Rightarrow> pyval dict \<Rightarrow> string \<Rightarrow> Parameter \<Rightarrow> error + Parameter" where
  "bind_kwarg F kwargs k p =
     (case dict_get kwargs k of
        Some x \<Rightarrow> set_value F p x
      | None \<Rightarrow>
          if \<not> p_optional p then Inl (ValueError (''Missing required input parameter '' @ k))
          else if p_default p \<noteq> PNone then set_value F p (p_default p)
          else Inr p)"

text \<open>The last loop of \<open>__init__\<close>: no input is named like an output.\<close>

fun check_duplicates :: "string list \<Rightarrow> Parameter dict \<Rightarrow> error option" where
  "check_duplicates [] outputs = None"
| "check_duplicates (k # ks) outputs =
     (if dict_get outputs k \<noteq> None then Some (ValueError (''Duplicate parameter name '' @ k))
      else check_duplicates ks outputs)"

definition BaseStep_init ::
  "builtins \<Rightarrow> step_class \<Rightarrow> string \<Rightarrow> string list option \<Rightarrow> pyval dict \<Rightarrow> error + BaseStep" where
  "BaseStep_init F cls name output_names kwargs =
     (let context = dict_get kwargs ''context'';
          output_parameters =
            (case output_names of
               Some (n # ns) \<Rightarrow>
                 if sc_allow_dynamic_outputs cls then map (\<lambda>n. new_Parameter n STRING) (n # ns)
                 else sc_output_parameters cls
             | _ \<Rightarrow> sc_output_parameters cls)
      in case for_each_entry (\<lambda>k p. set_value F p PNone) (by_name (sc_input_parameters cls)) of
           Inl e \<Rightarrow> Inl e
         | Inr inputs0 \<Rightarrow>
             (case for_each_entry (\<lambda>k p. set_value F p PNone) (by_name output_parameters) of
                Inl e \<Rightarrow> Inl e
              | Inr outputs \<Rightarrow>
                  (case for_each_entry (bind_kwarg F kwargs) inputs0 of
                     Inl e \<Rightarrow> Inl e
                   | Inr inputs \<Rightarrow>
                       (case check_duplicates (dict_keys inputs) outputs of
                          Some e \<Rightarrow> Inl e
                        | None \<Rightarrow>
                            Inr \<lparr> bs_class = cls, bs_name = name, bs_context = context,
                                  bs_output_parameters = output_parameters,
                                  bs_inputs = inputs, bs_outputs = outputs \<rparr>))))"

text \<open>
  \<open>context.update(self.context)\<close>: \<open>self.context\<close> is the keyword argument
  \<open>context\<close> when one was given, an empty dictionary otherwise.
\<close>

definition update_context :: "builtins \<Rightarrow> pyval dict \<Rightarrow> pyval option \<Rightarrow> error + pyval dict" where
  "update_context F context own =
     (case own of
        None \<Rightarrow> Inr context
      | Some x \<Rightarrow>
          (case dict_items F x of
             Inl e \<Rightarrow> Inl e
           | Inr kvs \<Rightarrow> Inr (fold (\<lambda>(k, y) d. dict_set d k y) kvs context)))"

text \<open>
  The first loop of \<open>run\<close>: every bound input is resolved against the context and
  published under \<open>stepName.inputName\<close>. The result is the exception raised (if any),
  the inputs and the context as the loop left them; \<open>None\<close> when a resolution never
  returns.
\<close>

fun resolve_inputs ::
  "builtins \<Rightarrow> string \<Rightarrow> Parameter dict \<Rightarrow> pyval dict \<Rightarrow>
     (error option \<times> Parameter dict \<times> pyval dict) option" where
  "resolve_inputs F name [] context = Some (None, [], context)"
| "resolve_inputs F name ((k, v) # rest) context =
     (if p_value v \<noteq> PNone then
        (case fill_value F (p_value v) context name of
           None \<Rightarrow> None
         | Some (Inl e) \<Rightarrow> Some (Some e, (k, v) # rest, context)
         | Some (Inr x) \<Rightarrow>
             (case set_value F v x of
                Inl e \<Rightarrow> Some (Some e, (k, assign v x) # rest, context)
              | Inr v' \<Rightarrow>
                  (case resolve_inputs F name rest (dict_set context (name @ ''.'' @ k) (p_value v')) of
                     None \<Rightarrow> None
                   | Some (e, rest', context') \<Rightarrow> Some (e, (k, v') # rest', context'))))
      else
        (case resolve_inputs F name rest context of
           None \<Rightarrow> None
         | Some (e, rest', context') \<Rightarrow> Some (e, (k, v) # rest', context')))"

text \<open>The second loop: the declared outputs among the result are bound and published.\<close>

fun publish_outputs ::
  "builtins \<Rightarrow> string \<Rightarrow> pyval dict \<Rightarrow> Parameter dict \<Rightarrow> pyval dict \<Rightarrow>
     error option \<times> Parameter dict \<times> pyval dict" where
  "publish_outputs F name [] outputs context = (None, outputs, context)"
| "publish_outputs F name ((k, v) # result) outputs context =
     (case dict_get outputs k of
        Some p \<Rightarrow>
          (case set_value F p v of
             Inl e \<Rightarrow> (Some e, dict_set outputs k (assign p v), context)
           | Inr p' \<Rightarrow>
               publish_outputs F name result (dict_set outputs k p')
                 (dict_set context (name @ ''.'' @ k) v))
      | None \<Rightarrow> publish_outputs F name result outputs context)"

text \<open>The third loop: a copy of each declared output holding the produced value.\<close>

fun build_outputs ::
  "builtins \<Rightarrow> pyval dict \<Rightarrow> Parameter dict \<Rightarrow> error + Parameter list" where
  "build_outputs F [] outputs = Inr []"
| "build_outputs F ((k, v) # result) outputs =
     (case dict_get outputs k of
        Some p \<Rightarrow>
          (case set_value F p v of
             Inl e \<Rightarrow> Inl e
           | Inr p' \<Rightarrow>
               (case build_outputs F result outputs of
                  Inl e \<Rightarrow> Inl e
                | Inr ps \<Rightarrow> Inr (p' # ps)))
      | None \<Rightarrow> build_outputs F result outputs)"

definition bound_inputs :: "BaseStep \<Rightarrow> Parameter list" where
  "bound_inputs self = filter (\<lambda>p. p_value p \<noteq> PNone) (map snd (bs_inputs self))"

text \<open>
  The body of the \<open>try\<close> block of \<open>BaseStep.run\<close>: the exception it raises or the
  result it returns, with the instance and the context as it left them.
\<close>

definition try_body ::
  "builtins \<Rightarrow> BaseStep \<Rightarrow> pyval dict \<Rightarrow> bool \<Rightarrow>
     ((error + WorkflowStepResult) \<times> BaseStep \<times> pyval dict) option" where
  "try_body F self context dry_run =
     (case resolve_inputs F (bs_name self) (bs_inputs self) context of
        None \<Rightarrow> None
      | Some (Some e, inputs, context1) \<Rightarrow> Some (Inl e, self\<lparr>bs_inputs := inputs\<rparr>, context1)
      | Some (None, inputs, context1) \<Rightarrow>
          (let self1 = self\<lparr>bs_inputs := inputs\<rparr>
           in case sc_process (bs_class self) inputs (bs_outputs self) dry_run of
                Inl e \<Rightarrow> Some (Inl e, self1, context1)
              | Inr result \<Rightarrow>
                  (case publish_outputs F (bs_name self) result (bs_outputs self) context1 of
                     (Some e, outputs, context2) \<Rightarrow>
                       Some (Inl e, self1\<lparr>bs_outputs := outputs\<rparr>, context2)
                   | (None, outputs, context2) \<Rightarrow>
                       (let self2 = self1\<lparr>bs_outputs := outputs\<rparr>
                        in case build_outputs F result outputs of
                             Inl e \<Rightarrow> Some (Inl e, self2, context2)
                           | Inr outs \<Rightarrow>
                               Some (Inr \<lparr> sr_step_name = bs_name self,
                                           sr_step_type = sc_class_name (bs_class self),
                                           sr_status = STEP_SUCCESS,
                                           sr_status_reason = None,
                                           sr_inputs = bound_inputs self2,
                                           sr_outputs = outs \<rparr>,
                                     self2, context2)))))"

definition failure_result :: "builtins \<Rightarrow> BaseStep \<Rightarrow> error \<Rightarrow> WorkflowStepResult" where
  "failure_result F self e =
     \<lparr> sr_step_name = bs_name self,
       sr_step_type = sc_class_name (bs_class self),
       sr_status = STEP_FAILURE,
       sr_status_reason = None,
       sr_inputs = bound_inputs self,
       sr_outputs = [(new_Parameter ''error'' STRING)\<lparr>p_value := PStr (exn_str F e)\<rparr>] \<rparr>"

definition BaseStep_run ::
  "builtins \<Rightarrow> BaseStep \<Rightarrow> pyval dict \<Rightarrow> bool \<Rightarrow>
     ((error + WorkflowStepResult) \<times> BaseStep \<times> pyval dict) option" where
  "BaseStep_run F self context dry_run =
     (case update_context F context (bs_context self) of
        Inl e \<Rightarrow> Some (Inl e, self, context)
      | Inr context0 \<Rightarrow>
          (case try_body F self context0 dry_run of
             None \<Rightarrow> None
           | Some (Inr r, self', context') \<Rightarrow> Some (Inr r, self', context')
           | Some (Inl e, self', context') \<Rightarrow>
               if dry_run then Some (Inl e, self', context')
               else Some (Inr (failure_result F self' e), self', context')))"

text \<open>A class that does not override \<open>__init__\<close>, and DummyStep.\<close>

definition dict_del :: "'v dict \<Rightarrow> string \<Rightarrow> 'v dict" where
  "dict_del d k = filter (\<lambda>kv. fst kv \<noteq> k) d"

definition inherited_init :: "pyval dict \<Rightarrow> error + (string list option \<times> pyval dict)" where
  "inherited_init kwargs = Inr (None, dict_del kwargs ''output_names'')"

definition DummyStep_process :: "Parameter dict \<Rightarrow> Parameter dict \<Rightarrow> bool \<Rightarrow> error + pyval dict" where
  "DummyStep_process inputs outputs dry_run =
     (case dict_get inputs ''input'' of
        None \<Rightarrow> Inl (KeyError ''input'')
      | Some p \<Rightarrow>
          (let input_value = p_value p
           in if input_value = PNone then Inl (ValueError ''Input is not provided'')
              else Inr [(''output'', input_value)]))"

definition DummyStep :: step_class where
  "DummyStep =
     \<lparr> sc_class_name = ''DummyStep'',
       sc_registered_names = [''dummy''],
       sc_input_parameters = [new_Parameter ''input'' STRING],
       sc_output_parameters = [new_Parameter ''output'' STRING],
       sc_allow_dynamic_outputs = False,
       sc_init_name = ''BaseStep.__init__'',
       sc_init = inherited_init,
       sc_process = DummyStep_process \<rparr>"

text \<open>
  LLMStep (steps/llm.py). Its \<open>__init__\<close> turns the keyword \<open>output_names\<close> into
  a list of names; \<open>process\<close> checks the prompt and the model and, in a dry run,
  returns a placeholder for every output. What it does after that (the calls to the
  OpenAI client and the decoding of the answer) is the parameter \<open>llm_live\<close>.
  \<open>split_on\<close> is \<open>s.split(",")\<close> and \<open>strip\<close> is \<open>s.strip()\<close> over ASCII.
\<close>

fun split_on :: "char \<Rightarrow> string \<Rightarrow> string list" where
  "split_on c [] = [[]]"
| "split_on c (x # xs) =
     (if x = c then [] # split_on c xs
      else (case split_on c xs of w # ws \<Rightarrow> (x # w) # ws | [] \<Rightarrow> [[x]]))"

definition is_py_space :: "char \<Rightarrow> bool" where
  "is_py_space c = (let n = (of_char c :: nat) in (9 \<le> n \<and> n \<le> 13) \<or> (28 \<le> n \<and> n \<le> 32))"

definition strip :: "string \<Rightarrow> string" where
  "strip s = rev (dropWhile is_py_space (rev (dropWhile is_py_space s)))"

definition LLMStep_init :: "builtins \<Rightarrow> pyval dict \<Rightarrow> error + (string list option \<times> pyval dict)" where
  "LLMStep_init F kwargs =
     (case dict_get kwargs ''output_names'' of
        None \<Rightarrow> Inr (None, kwargs)
      | Some x \<Rightarrow>
          if py_bool F x then
            (case x of
               PStr s \<Rightarrow> Inr (Some (map strip (split_on CHR '','' s)), dict_del kwargs ''output_names'')
             | _ \<Rightarrow> Inl (AttributeError ([CHR 0x27] @ type_name F x @ [CHR 0x27]
                                       @ '' object has no attribute '' @ [CHR 0x27] @ ''split'' @ [CHR 0x27])))
          else Inr (None, dict_del kwargs ''output_names''))"

definition LLMStep_process ::
  "(Parameter dict \<Rightarrow> Parameter dict \<Rightarrow> error + pyval dict) \<Rightarrow>
   Parameter dict \<Rightarrow> Parameter dict \<Rightarrow> bool \<Rightarrow> error + pyval dict" where
  "LLMStep_process llm_live inputs outputs dry_run =
     (case (dict_get inputs ''prompt'', dict_get inputs ''model'') of
        (Some prompt, Some model) \<Rightarrow>
          if p_value prompt = PNone then Inl (ValueError ''Prompt is not provided'')
          else if p_value model = PNone then Inl (ValueError ''Model is not provided'')
          else if dry_run then
            Inr (map (\<lambda>name. (name, PStr (''This is the '' @ name @ '' of the LLM Dry Run'')))
                     (dict_keys outputs))
          else llm_live inputs outputs
      | (None, _) \<Rightarrow> Inl (KeyError ''prompt'')
      | (_, None) \<Rightarrow> Inl (KeyError ''model''))"

definition LLMStep ::
  "builtins \<Rightarrow> (Parameter dict \<Rightarrow> Parameter dict \<Rightarrow> error + pyval dict) \<Rightarrow> step_class" where
  "LLMStep F llm_live =
     \<lparr> sc_class_name = ''LLMStep'',
       sc_registered_names = [''llm''],
       sc_input_parameters =
         [(new_Parameter ''prompt'' STRING)
            \<lparr> p_description := Some ''Default (content above), should be hidden'',
              p_invisible := True \<rparr>,
          (new_Parameter ''model'' OPTION)
            \<lparr> p_default := PStr ''gpt-4o'',
              p_description := Some ''Placeholder Selection (GPT, Claude, LLaMA), Selection (gpt-4o, gpt-4o-mini)'',
              p_choices := Some [''gpt-4o'', ''gpt-4o-mini''] \<rparr>,
          (new_Parameter ''chat_history'' BOOLEAN)
            \<lparr> p_optional := True, p_default := PBool False,
              p_description := Some ''Placeholder ON/OFF'' \<rparr>,
          (new_Parameter ''system_message'' STRING)
            \<lparr> p_optional := True, p_default := PStr [],
              p_description := Some ''Placeholder'' \<rparr>,
          (new_Parameter ''output_names'' OUTPUT)
            \<lparr> p_optional := True, p_default := PStr [],
              p_description :=
                Some (''Output Parameters: Comma-separated output names, e.g. '' @ [CHR 0x22]
                      @ ''summary, keywords, sentiment'' @ [CHR 0x22]) \<rparr>],
       sc_output_parameters = [new_Parameter ''result'' STRING],
       sc_allow_dynamic_outputs = True,
       sc_init_name = ''LLMStep.__init__'',
       sc_init = LLMStep_init F,
       sc_process = LLMStep_process llm_live \<rparr>"

text \<open>The registry: every registered name of every active class.\<close>

definition active_steps ::
  "builtins \<Rightarrow> (Parameter dict \<Rightarrow> Parameter dict \<Rightarrow> error + pyval dict) \<Rightarrow> step_class list" where
  "active_steps F llm_live = [DummyStep, LLMStep F llm_live]"

definition registered_steps ::
  "builtins \<Rightarrow> (Parameter dict \<Rightarrow> Parameter dict \<Rightarrow> error + pyval dict) \<Rightarrow> step_class dict" where
  "registered_steps F llm_live =
     fold (\<lambda>(step_name, step_class) d. dict_set d step_name step_class)
       (concat (map (\<lambda>step_class. map (\<lambda>step_name. (step_name, step_class))
                                      (sc_registered_names step_class))
                    (active_steps F llm_live))) []"

section \<open>Workflow definitions and the runner (workflowyaml.py)\<close>

record WorkflowStep =
  ws_name :: string
  ws_type :: string
  ws_description :: "string option"
  ws_inputs :: "pyval dict"
  ws_skip_validation :: bool
  ws_step_class :: "step_class option"
  ws_step :: "BaseStep option"

text \<open>
  The call \<open>step_class(name, **inputs)\<close>: an input called \<open>name\<close> collides with the
  positional argument; otherwise the class's own \<open>__init__\<close> runs, then
  \<open>BaseStep.__init__\<close>.
\<close>

definition construct ::
  "builtins \<Rightarrow> step_class \<Rightarrow> string \<Rightarrow> pyval dict \<Rightarrow> error + BaseStep" where
  "construct F cls name inputs =
     (if dict_get inputs ''name'' \<noteq> None
      then Inl (TypeError (sc_init_name cls @ ''() got multiple values for argument ''
                             @ [CHR 0x27] @ ''name'' @ [CHR 0x27]))
      else case sc_init cls inputs of
             Inl e \<Rightarrow> Inl e
           | Inr (output_names, kwargs) \<Rightarrow> BaseStep_init F cls name output_names kwargs)"

definition init_input ::
  "builtins \<Rightarrow> step_class dict \<Rightarrow> WorkflowStep \<Rightarrow> error option \<times> WorkflowStep" where
  "init_input F registry self =
     (let self1 = self\<lparr>ws_step_class := dict_get registry (ws_type self)\<rparr>
      in case ws_step_class self1 of
           None \<Rightarrow> (None, self1)
         | Some cls \<Rightarrow>
             (case construct F cls (ws_name self) (ws_inputs self) of
                Inl e \<Rightarrow> (Some e, self1)
              | Inr step \<Rightarrow> (None, self1\<lparr>ws_step := Some step\<rparr>)))"

text \<open>
  \<open>WorkflowStep.run\<close>. The private attribute \<open>_step\<close> is declared without a
  default, so it exists only once \<open>init_input\<close> has assigned it: on a step that has
  no instance, reading \<open>self._step\<close> raises AttributeError, and the test
  \<open>is None\<close> with its RuntimeError is never reached (\<open>init_input\<close> assigns
  an instance or nothing, never \<open>None\<close>).
\<close>

definition missing_step_attribute :: error where
  "missing_step_attribute =
     AttributeError ([CHR 0x27] @ ''WorkflowStep'' @ [CHR 0x27] @ '' object has no attribute ''
                     @ [CHR 0x27] @ ''_step'' @ [CHR 0x27])"

definition WorkflowStep_run ::
  "builtins \<Rightarrow> WorkflowStep \<Rightarrow> pyval dict \<Rightarrow> bool \<Rightarrow>
     ((error + WorkflowStepResult) \<times> WorkflowStep \<times> pyval dict) option" where
  "WorkflowStep_run F self context dry_run =
     (case ws_step self of
        None \<Rightarrow> Some (Inl missing_step_attribute, self, context)
      | Some step \<Rightarrow>
          (case BaseStep_run F step context dry_run of
             None \<Rightarrow> None
           | Some (r, step', context') \<Rightarrow> Some (r, self\<lparr>ws_step := Some step'\<rparr>, context')))"

record WorkflowDef =
  wf_name :: string
  wf_description :: "string option"
  wf_inputs :: "InputParameter list"
  wf_steps :: "WorkflowStep list"
  wf_layout_attributes :: "pyval dict option"
  wf_skip_validation :: bool

text \<open>\<open>inputs.get(name, default)\<close>\<close>

definition get_or :: "pyval dict \<Rightarrow> string \<Rightarrow> pyval \<Rightarrow> pyval" where
  "get_or d k dflt = (case dict_get d k of None \<Rightarrow> dflt | Some x \<Rightarrow> x)"



text \<open>\<open>run\<close>, the dry-run loop: every declared input gets its placeholder.\<close>

fun seed_dry_run :: "InputParameter list \<Rightarrow> pyval dict \<Rightarrow> error option \<times> pyval dict" where
  "seed_dry_run [] run_inputs = (None, run_inputs)"
| "seed_dry_run (param # params) run_inputs =
     (case get_dry_run_value param of
        Inl e \<Rightarrow> (Some e, run_inputs)
      | Inr x \<Rightarrow> seed_dry_run params (dict_set run_inputs (p_name param) x))"

text \<open>\<open>run\<close>, the loop that binds and validates the inputs.\<close>

fun bind_inputs ::
  "builtins \<Rightarrow> InputParameter list \<Rightarrow> pyval dict \<Rightarrow>
     error option \<times> InputParameter list \<times> string list" where
  "bind_inputs F [] run_inputs = (None, [], [])"
| "bind_inputs F (param # params) run_inputs =
     (case set_value F param (get_or run_inputs (p_name param) (p_default param)) of
        Inl e \<Rightarrow>
          (Some e, assign param (get_or run_inputs (p_name param) (p_default param)) # params, [])
      | Inr param' \<Rightarrow>
          (let required = (if p_value param' = PNone \<and> \<not> p_optional param'
                           then [''Parameter '' @ p_name param' @ '' is required''] else [])
           in case value_validation F param' of
                Inl e \<Rightarrow> (Some e, param' # params, required)
              | Inr errors \<Rightarrow>
                  (case bind_inputs F params run_inputs of
                     (e, params', input_errors) \<Rightarrow>
                       (e, param' # params',
                        required
                        @ (if errors \<noteq> [] then
                             [''Invalid input value for '' @ p_name param' @ '': ''
                                @ repr_list F errors]
                           else [])
                        @ input_errors))))"

definition input_failure :: "string list \<Rightarrow> WorkflowRunResult" where
  "input_failure input_errors =
     \<lparr> rr_status = FAILURE,
       rr_result =
         [\<lparr> sr_step_name = ''input'', sr_step_type = ''input'', sr_status = STEP_FAILURE,
            sr_status_reason = Some (join ''; '' input_errors),
            sr_inputs = [], sr_outputs = [] \<rparr>] \<rparr>"

text \<open>\<open>{f"input.{p.name}": p.value for p in self.inputs}\<close>\<close>

definition input_context :: "InputParameter list \<Rightarrow> pyval dict" where
  "input_context params = fold (\<lambda>p d. dict_set d (''input.'' @ p_name p) (p_value p)) params []"

text \<open>
  \<open>run\<close>, the loop over the steps, with the list of results and the status it has
  built so far. It returns the exception that left the loop or the finished list and
  status, and the steps and the context as it left them.
\<close>

fun run_steps ::
  "builtins \<Rightarrow> step_class dict \<Rightarrow> bool \<Rightarrow> WorkflowStep list \<Rightarrow> pyval dict \<Rightarrow>
   WorkflowStepResult list \<Rightarrow> WorkflowRunStatus \<Rightarrow>
     ((error + WorkflowStepResult list \<times> WorkflowRunStatus) \<times> WorkflowStep list \<times> pyval dict) option" where
  "run_steps F registry dry_run [] context result status =
     Some (Inr (result, status), [], context)"
| "run_steps F registry dry_run (step # steps) context result status =
     (case init_input F registry step of
        (Some e, step1) \<Rightarrow> Some (Inl e, step1 # steps, context)
      | (None, step1) \<Rightarrow>
          (case WorkflowStep_run F step1 context dry_run of
             None \<Rightarrow> None
           | Some (Inl e, step2, context') \<Rightarrow> Some (Inl e, step2 # steps, context')
           | Some (Inr step_result, step2, context') \<Rightarrow>
               (case run_steps F registry dry_run steps context' (result @ [step_result])
                       (if sr_status step_result = STEP_FAILURE then FAILURE else status) of
                  None \<Rightarrow> None
                | Some (out, steps', context'') \<Rightarrow> Some (out, step2 # steps', context''))))"

text \<open>
  \<open>WorkflowDef.run\<close>. The result is \<open>None\<close> when the call never returns; otherwise
  the exception raised or the WorkflowRunResult returned, the definition as the call left
  it, and the dictionary of run inputs as the call left it (the caller's own dictionary
  when one was passed).
\<close>

definition run ::
  "builtins \<Rightarrow> step_class dict \<Rightarrow> WorkflowDef \<Rightarrow> pyval dict option \<Rightarrow> bool \<Rightarrow>
     ((error + WorkflowRunResult) \<times> WorkflowDef \<times> pyval dict) option" where
  "run F registry self run_inputs dry_run =
     (let run_inputs0 = (case run_inputs of None \<Rightarrow> [] | Some d \<Rightarrow> d);
          (seed_error, run_inputs1) =
            (if dry_run then seed_dry_run (wf_inputs self) run_inputs0 else (None, run_inputs0))
      in case seed_error of
           Some e \<Rightarrow> Some (Inl e, self, run_inputs1)
         | None \<Rightarrow>
             (case bind_inputs F (wf_inputs self) run_inputs1 of
                (Some e, params, input_errors) \<Rightarrow>
                  Some (Inl e, self\<lparr>wf_inputs := params\<rparr>, run_inputs1)
              | (None, params, input_errors) \<Rightarrow>
                  (let self1 = self\<lparr>wf_inputs := params\<rparr>
                   in if input_errors \<noteq> [] then
                        Some (Inr (input_failure input_errors), self1, run_inputs1)
                      else
                        (case run_steps F registry dry_run (wf_steps self1)
                                (input_context params) [] SUCCESS of
                           None \<Rightarrow> None
                         | Some (Inl e, steps, context) \<Rightarrow>
                             Some (Inl e, self1\<lparr>wf_steps := steps\<rparr>, run_inputs1)
                         | Some (Inr (result, status), steps, context) \<Rightarrow>
                             Some (Inr \<lparr> rr_status = status, rr_result = result \<rparr>,
                                   self1\<lparr>wf_steps := steps\<rparr>, run_inputs1)))))"

text \<open>
  The field validator of \<open>WorkflowStep.type\<close>: the type is a registered name. And a
  definition as it is declared: no value bound to an input, no instance bound to a step.
\<close>

definition validate_type :: "step_class dict \<Rightarrow> WorkflowStep \<Rightarrow> bool" where
  "validate_type registry s = (dict_get registry (ws_type s) \<noteq> None)"

definition unbound_input :: "InputParameter \<Rightarrow> InputParameter" where
  "unbound_input p = p\<lparr>p_value := PNone\<rparr>"

definition unbound_step :: "WorkflowStep \<Rightarrow> WorkflowStep" where
  "unbound_step s = s\<lparr>ws_step_class := None, ws_step := None\<rparr>"

definition unbound :: "WorkflowDef \<Rightarrow> WorkflowDef" where
  "unbound wdef =
     wdef\<lparr>wf_inputs := map unbound_input (wf_inputs wdef),
          wf_steps := map unbound_step (wf_steps wdef)\<rparr>"

section \<open>Worked examples\<close>

text \<open>
  A concrete record of built-ins for the worked examples: no example below holds a float
  or an opaque object, so every operation on them is a constant.
\<close>

definition example_builtins :: builtins where
  "example_builtins =
     \<lparr> str_float = (\<lambda>_. ''nan''), str_obj = (\<lambda>_. ''object''),
       repr_list = (\<lambda>xs. ''['' @ join '', '' xs @ '']''),
       float_of_int = (\<lambda>_. Inl (OverflowError ''int too large to convert to float'')),
       float_of_str = (\<lambda>_. Inl (ValueError ''could not convert string to float'')),
       float_of_obj = (\<lambda>_. Inl (TypeError ''float() argument must be a string or a real number'')),
       bool_float = (\<lambda>_. True), bool_obj = (\<lambda>_. True),
       eq_float = (\<lambda>_ _. False), eq_float_int = (\<lambda>_ _. False), eq_obj = (\<lambda>_ _. False),
       type_name_obj = (\<lambda>_. ''object''),
       dict_items = (\<lambda>_. Inl (TypeError ''object is not iterable'')),
       validation_message = (\<lambda>m. m) \<rparr>"

text \<open>The workflow the command line's \<open>generate\<close> writes: one dummy step.\<close>

definition hello_workflow :: WorkflowDef where
  "hello_workflow =
     \<lparr> wf_name = ''example workflow'', wf_description = None, wf_inputs = [],
       wf_steps =
         [\<lparr> ws_name = ''example step'', ws_type = ''dummy'', ws_description = None,
            ws_inputs = [(''input'', PStr ''Hello, World!'')], ws_skip_validation = False,
            ws_step_class = None, ws_step = None \<rparr>],
       wf_layout_attributes = None, wf_skip_validation = False \<rparr>"

text \<open>An LLM back end that always fails (the examples never reach it).\<close>

definition no_llm :: "Parameter dict \<Rightarrow> Parameter dict \<Rightarrow> error + pyval dict" where
  "no_llm inputs outputs = Inl (ExternalError ''no connection'')"

text \<open>
  A workflow with one read-only input \<open>greeting\<close> (default \<open>"x"\<close>) and one dummy
  step that echoes it.
\<close>

definition greeting_input :: InputParameter where
  "greeting_input =
     \<lparr> p_name = ''greeting'', p_data_type = STRING, p_value = PNone, p_optional = False,
       p_default = PStr ''x'', p_description = None, p_content_type = None, p_choices = None,
       p_invisible = False, p_mention_data_only = False, user_permission = Some READ_ONLY \<rparr>"

definition readonly_workflow :: WorkflowDef where
  "readonly_workflow =
     \<lparr> wf_name = ''read-only input'', wf_description = None, wf_inputs = [greeting_input],
       wf_steps =
         [\<lparr> ws_name = ''echo'', ws_type = ''dummy'', ws_description = None,
            ws_inputs = [(''input'', PStr (at_brace @ ''input.greeting}''))],
            ws_skip_validation = False, ws_step_class = None, ws_step = None \<rparr>],
       wf_layout_attributes = None, wf_skip_validation = False \<rparr>"





section \<open>Variable resolution: the matcher and the loop\<close>

lemma run_split:
  "list_all P xs \<Longrightarrow> ys = [] \<or> \<not> P (hd ys) \<Longrightarrow>
   takeWhile P (xs @ ys) = xs \<and> dropWhile P (xs @ ys) = ys"
  by (induction xs) (cases ys; auto)+

lemma list_all_takeWhile: "list_all P (takeWhile P xs)"
  by (induction xs) auto

lemma word_not_space: "is_word_char c \<Longrightarrow> \<not> is_space c"
  by (auto simp: is_word_char_def is_space_def Let_def)

lemma hd_name_not_space: "is_name w \<Longrightarrow> \<not> is_space (hd (w @ r))"
  by (cases w) (auto simp: is_name_def word_not_space)

lemma hd_spaces_dot_not_word: "list_all is_space sp \<Longrightarrow> \<not> is_word_char (hd (sp @ CHR ''.'' # r))"
  by (cases sp) (auto simp: is_word_char_def is_space_def Let_def)

lemma hd_spaces_brace_not_word: "list_all is_space sp \<Longrightarrow> \<not> is_word_char (hd (sp @ CHR ''}'' # r))"
  by (cases sp) (auto simp: is_word_char_def is_space_def Let_def)

lemma match_at_complete:
  assumes "list_all is_space sp1" "list_all is_space sp2" "list_all is_space sp3" "list_all is_space sp4"
    and "is_name sn" "is_name pn"
  shows "match_at (reference_token sp1 sn sp2 sp3 pn sp4 @ rest) = Some (reference_token sp1 sn sp2 sp3 pn sp4, sn, pn)"
proof -
  let ?t7 = "CHR ''}'' # rest"
  let ?t5 = "pn @ sp4 @ ?t7"
  let ?t4 = "sp3 @ ?t5"
  let ?t3 = "CHR ''.'' # ?t4"
  let ?t1 = "sn @ sp2 @ ?t3"
  have a1: "takeWhile is_space (sp1 @ ?t1) = sp1 \<and> dropWhile is_space (sp1 @ ?t1) = ?t1"
    using assms(1) hd_name_not_space [OF assms(5)] by (intro run_split) auto
  have a2: "takeWhile is_word_char (sn @ sp2 @ ?t3) = sn \<and> dropWhile is_word_char (sn @ sp2 @ ?t3) = sp2 @ ?t3"
    using assms(5) hd_spaces_dot_not_word [OF assms(2)] by (intro run_split) (auto simp: is_name_def)
  have a3: "takeWhile is_space (sp2 @ ?t3) = sp2 \<and> dropWhile is_space (sp2 @ ?t3) = ?t3"
    using assms(2) by (intro run_split) (auto simp: is_space_def)
  have a4: "takeWhile is_space (sp3 @ ?t5) = sp3 \<and> dropWhile is_space (sp3 @ ?t5) = ?t5"
    using assms(3) hd_name_not_space [OF assms(6)] by (intro run_split) auto
  have a5: "takeWhile is_word_char (pn @ sp4 @ ?t7) = pn \<and> dropWhile is_word_char (pn @ sp4 @ ?t7) = sp4 @ ?t7"
    using assms(6) hd_spaces_brace_not_word [OF assms(4)] by (intro run_split) (auto simp: is_name_def)
  have a6: "takeWhile is_space (sp4 @ ?t7) = sp4 \<and> dropWhile is_space (sp4 @ ?t7) = ?t7"
    using assms(4) by (intro run_split) (auto simp: is_space_def)
  have ne: "sn \<noteq> []" "pn \<noteq> []" using assms(5,6) by (auto simp: is_name_def)
  show ?thesis
    unfolding match_at_def reference_token_def
    using a1 a2 a3 a4 a5 a6 ne by (simp add: Let_def)
qed

lemma match_at_sound:
  assumes "match_at s = Some (tok, sn, pn)"
  shows "\<exists>sp1 sp2 sp3 sp4 rest. list_all is_space sp1 \<and> list_all is_space sp2 \<and>
           list_all is_space sp3 \<and> list_all is_space sp4 \<and> is_name sn \<and> is_name pn \<and>
           tok = reference_token sp1 sn sp2 sp3 pn sp4 \<and> s = tok @ rest"
proof -
  define r0 where "r0 = drop 2 s"
  define r1 where "r1 = dropWhile is_space r0"
  define r2 where "r2 = dropWhile is_word_char r1"
  define r3 where "r3 = dropWhile is_space r2"
  define r4 where "r4 = drop 1 r3"
  define r5 where "r5 = dropWhile is_space r4"
  define r6 where "r6 = dropWhile is_word_char r5"
  define r7 where "r7 = dropWhile is_space r6"
  note defs = r0_def r1_def r2_def r3_def r4_def r5_def r6_def r7_def
  from assms have p0: "prefix at_brace s"
    by (auto simp: match_at_def split: if_splits)
  from assms p0 have c1: "takeWhile is_word_char r1 \<noteq> []" "prefix ''.'' r3"
    by (auto simp: match_at_def Let_def defs split: if_splits)
  from assms p0 c1 have c2: "takeWhile is_word_char r5 \<noteq> []" "prefix ''}'' r7"
    by (auto simp: match_at_def Let_def defs split: if_splits)
  from assms p0 c1 c2 have res:
    "tok = reference_token (takeWhile is_space r0) (takeWhile is_word_char r1)
             (takeWhile is_space r2) (takeWhile is_space r4) (takeWhile is_word_char r5)
             (takeWhile is_space r6)"
    "sn = takeWhile is_word_char r1" "pn = takeWhile is_word_char r5"
    by (auto simp: match_at_def Let_def defs reference_token_def split: if_splits)
  have s0: "s = at_brace @ r0" using p0 by (auto simp: r0_def prefix_def)
  have s1: "r0 = takeWhile is_space r0 @ r1" by (simp add: r1_def)
  have s2: "r1 = takeWhile is_word_char r1 @ r2" by (simp add: r2_def)
  have s3: "r2 = takeWhile is_space r2 @ r3" by (simp add: r3_def)
  have s4: "r3 = ''.'' @ r4" using c1(2) by (auto simp: r4_def prefix_def)
  have s5: "r4 = takeWhile is_space r4 @ r5" by (simp add: r5_def)
  have s6: "r5 = takeWhile is_word_char r5 @ r6" by (simp add: r6_def)
  have s7: "r6 = takeWhile is_space r6 @ r7" by (simp add: r7_def)
  obtain rest where s8: "r7 = ''}'' @ rest" using c2(2) by (auto simp: prefix_def)
  have "s = tok @ rest"
    unfolding res(1) reference_token_def
    apply (subst s0, subst s1, subst s2, subst s3, subst s4, subst s5, subst s6, subst s7, subst s8)
    by simp
  then have "list_all is_space (takeWhile is_space r0) \<and> list_all is_space (takeWhile is_space r2) \<and>
           list_all is_space (takeWhile is_space r4) \<and> list_all is_space (takeWhile is_space r6) \<and>
           is_name sn \<and> is_name pn \<and>
           tok = reference_token (takeWhile is_space r0) sn (takeWhile is_space r2)
                   (takeWhile is_space r4) pn (takeWhile is_space r6) \<and> s = tok @ rest"
    using res c1 c2 by (simp add: is_name_def list_all_takeWhile)
  then show ?thesis by blast
qed

lemma count_at_append [simp]: "count_at (a @ b) = count_at a + count_at b"
  by (simp add: count_at_def)

lemma count_at_Nil [simp]: "count_at [] = 0"
  by (simp add: count_at_def)

lemma count_at_Cons: "count_at (c # s) = (if c = CHR ''@'' then 1 else 0) + count_at s"
  by (simp add: count_at_def)

lemma py_replace_count_le:
  "old \<noteq> [] \<Longrightarrow> count_at new = 0 \<Longrightarrow> count_at (py_replace s old new) \<le> count_at s"
proof (induction s old new rule: py_replace.induct)
  case (1 s old new)
  show ?case
  proof (cases "s = []")
    case True
    then show ?thesis using 1(3) by (subst py_replace.simps) simp
  next
    case ne: False
    show ?thesis
    proof (cases "prefix old s")
      case True
      then obtain r where s: "s = old @ r" by (auto simp: prefix_def)
      have "count_at (py_replace (drop (length old) s) old new) \<le> count_at (drop (length old) s)"
        using 1(1) [OF 1(3) ne True] 1(3,4) by simp
      then show ?thesis
        using 1(3,4) ne True s by (subst py_replace.simps) simp
    next
      case False
      have "count_at (py_replace (tl s) old new) \<le> count_at (tl s)"
        using 1(2) [OF 1(3) ne False] 1(3,4) by simp
      moreover have "count_at s = count_at [hd s] + count_at (tl s)"
        using ne by (metis count_at_append append_Cons append_Nil list.collapse)
      ultimately show ?thesis
        using 1(3) ne False
        by (subst py_replace.simps) (simp add: count_at_Cons)
    qed
  qed
qed

lemma py_replace_count_less:
  "old \<noteq> [] \<Longrightarrow> count_at new = 0 \<Longrightarrow> 0 < count_at old \<Longrightarrow> s = a @ old @ b \<Longrightarrow>
   count_at (py_replace s old new) < count_at s"
proof (induction s old new arbitrary: a rule: py_replace.induct)
  case (1 s old new)
  have ne: "s \<noteq> []" using 1(3,6) by simp
  show ?case
  proof (cases "prefix old s")
    case True
    then obtain r where s: "s = old @ r" by (auto simp: prefix_def)
    have "count_at (py_replace r old new) \<le> count_at r"
      using py_replace_count_le [OF 1(3,4)] .
    then show ?thesis
      using 1(3,4,5) ne True s by (subst py_replace.simps) simp
  next
    case False
    then have "a \<noteq> []" using 1(6) by (auto simp: prefix_def)
    then obtain c a' where a: "a = c # a'" by (cases a) auto
    then have tl: "tl s = a' @ old @ b" and hd: "s = c # tl s" using 1(6) by auto
    have "count_at (py_replace (tl s) old new) < count_at (tl s)"
      using 1(2) [OF 1(3) ne False 1(3,4,5) tl] .
    moreover have "count_at s = count_at [hd s] + count_at (tl s)"
      using ne by (metis count_at_append append_Cons append_Nil list.collapse)
    ultimately show ?thesis
      using 1(3) ne False
      by (subst py_replace.simps) (simp add: count_at_Cons)
  qed
qed


lemma re_search_occurs:
  "re_search s = Some (tok, sn, pn) \<Longrightarrow> \<exists>a b. s = a @ tok @ b \<and> match_at (tok @ b) = Some (tok, sn, pn)"
proof (induction s)
  case Nil
  then show ?case by simp
next
  case (Cons c cs)
  show ?case
  proof (cases "match_at (c # cs)")
    case None
    with Cons.prems have "re_search cs = Some (tok, sn, pn)" by simp
    from Cons.IH [OF this] obtain a b where "cs = a @ tok @ b" "match_at (tok @ b) = Some (tok, sn, pn)"
      by blast
    then have "c # cs = (c # a) @ tok @ b \<and> match_at (tok @ b) = Some (tok, sn, pn)" by simp
    then show ?thesis by blast
  next
    case (Some m)
    with Cons.prems have m: "match_at (c # cs) = Some (tok, sn, pn)" by simp
    from match_at_sound [OF m] obtain rest where "c # cs = tok @ rest" by blast
    then have "c # cs = [] @ tok @ rest \<and> match_at (tok @ rest) = Some (tok, sn, pn)"
      using m by simp
    then show ?thesis by blast
  qed
qed

lemma count_at_spaces: "list_all is_space sp \<Longrightarrow> count_at sp = 0"
  by (induction sp) (auto simp: count_at_Cons is_space_def)

lemma count_at_word: "list_all is_word_char w \<Longrightarrow> count_at w = 0"
  by (induction w) (auto simp: count_at_Cons is_word_char_def Let_def)

lemma match_at_count: "match_at s = Some (tok, sn, pn) \<Longrightarrow> count_at tok = 1 \<and> tok \<noteq> []"
proof -
  assume "match_at s = Some (tok, sn, pn)"
  from match_at_sound [OF this] obtain sp1 sp2 sp3 sp4 where
    "list_all is_space sp1" "list_all is_space sp2" "list_all is_space sp3" "list_all is_space sp4"
    "is_name sn" "is_name pn" "tok = reference_token sp1 sn sp2 sp3 pn sp4"
    by blast
  then show ?thesis
    by (simp add: reference_token_def count_at_spaces count_at_word is_name_def count_at_Cons)
qed

lemma fill_loop_step_count:
  assumes "re_search s = Some (tok, sn, pn)" "count_at new = 0"
  shows "count_at (py_replace s tok new) < count_at s"
proof -
  from re_search_occurs [OF assms(1)] obtain a b where
    s: "s = a @ tok @ b" and m: "match_at (tok @ b) = Some (tok, sn, pn)" by blast
  from match_at_count [OF m] have "count_at tok = 1" "tok \<noteq> []" by auto
  then show ?thesis
    using py_replace_count_less [OF _ assms(2) _ s] by simp
qed

lemma fill_loop_terminates:
  assumes "\<forall>v \<in> snd ` set ctx. count_at (py_str F v) = 0"
  shows "\<exists>r. fill_loop F ctx cur s = Some r"
proof (induction "count_at s" arbitrary: s rule: less_induct)
  case less
  show ?case
  proof (cases "re_search s")
    case None
    then show ?thesis by (subst fill_loop.simps) simp
  next
    case (Some m)
    obtain tok sn pn where m: "m = (tok, sn, pn)" by (cases m) auto
    show ?thesis
    proof (cases "py_get ctx (sn @ ''.'' @ pn) = PNone")
      case True
      then show ?thesis using Some m by (subst fill_loop.simps) simp
    next
      case False
      then have "py_get ctx (sn @ ''.'' @ pn) \<in> snd ` set ctx"
        by (auto simp: py_get_def dict_get_def split: option.splits dest!: map_of_SomeD intro: rev_image_eqI)
      with assms have "count_at (py_str F (py_get ctx (sn @ ''.'' @ pn))) = 0" by blast
      from fill_loop_step_count [OF _ this] Some m
      have "count_at (py_replace s tok (py_str F (py_get ctx (sn @ ''.'' @ pn)))) < count_at s"
        by simp
      from less [OF this] show ?thesis
        using Some m False by (subst fill_loop.simps) simp
    qed
  qed
qed

lemma fill_loop_result:
  assumes "fill_loop F ctx cur s = Some y"
  shows "case y of
           Inr r \<Rightarrow> \<exists>s'. r = PStr s' \<and> re_search s' = None
         | Inl e \<Rightarrow> \<exists>var. e = ValueReferenceError cur var (dict_keys ctx) \<and> py_get ctx var = PNone"
proof (rule fill_loop.raw_induct [where P = "\<lambda>F ctx cur s y. case y of
           Inr r \<Rightarrow> \<exists>s'. r = PStr s' \<and> re_search s' = None
         | Inl e \<Rightarrow> \<exists>var. e = ValueReferenceError cur var (dict_keys ctx) \<and> py_get ctx var = PNone",
        OF _ assms])
  fix loop :: "builtins \<Rightarrow> pyval dict \<Rightarrow> string \<Rightarrow> string \<Rightarrow> (error + pyval) option"
  fix F ctx cur s y
  assume IH: "\<And>F ctx cur s y. loop F ctx cur s = Some y \<Longrightarrow>
           (case y of
              Inr r \<Rightarrow> \<exists>s'. r = PStr s' \<and> re_search s' = None
            | Inl e \<Rightarrow> \<exists>var. e = ValueReferenceError cur var (dict_keys ctx) \<and> py_get ctx var = PNone)"
  assume body: "(case re_search s of None \<Rightarrow> Some (Inr (PStr s))
      | Some (group0, step_name, parameter_name) \<Rightarrow>
          let value = py_get ctx (step_name @ ''.'' @ parameter_name)
          in if value = PNone
             then Some (Inl (ValueReferenceError cur (step_name @ ''.'' @ parameter_name) (dict_keys ctx)))
             else loop F ctx cur (py_replace s group0 (py_str F value))) = Some y"
  show "case y of
           Inr r \<Rightarrow> \<exists>s'. r = PStr s' \<and> re_search s' = None
         | Inl e \<Rightarrow> \<exists>var. e = ValueReferenceError cur var (dict_keys ctx) \<and> py_get ctx var = PNone"
  proof (cases "re_search s")
    case None
    with body show ?thesis by auto
  next
    case (Some m)
    obtain tok sn pn where m: "m = (tok, sn, pn)" by (cases m) auto
    show ?thesis
    proof (cases "py_get ctx (sn @ ''.'' @ pn) = PNone")
      case True
      with body Some m show ?thesis by auto
    next
      case False
      with body Some m
      have "loop F ctx cur (py_replace s tok (py_str F (py_get ctx (sn @ ''.'' @ pn)))) = Some y"
        by simp
      from IH [OF this] show ?thesis .
    qed
  qed
qed

lemma fill_loop_same_lookups:
  assumes "fill_loop F ctx cur s = Some y" and eq: "\<forall>k. py_get ctx k = py_get ctx' k"
  shows "fill_loop F ctx' cur s =
     Some (case y of Inl (ValueReferenceError st var ks) \<Rightarrow> Inl (ValueReferenceError st var (dict_keys ctx'))
           | _ \<Rightarrow> y)"
proof -
  let ?R = "\<lambda>y. (case y of Inl (ValueReferenceError st var ks) \<Rightarrow> Inl (ValueReferenceError st var (dict_keys ctx'))
           | _ \<Rightarrow> y)"
  have "ctx = ctx \<longrightarrow> fill_loop F ctx' cur s = Some (?R y)"
  proof (rule fill_loop.raw_induct [where P = "\<lambda>F ctx0 cur s y. ctx0 = ctx \<longrightarrow> fill_loop F ctx' cur s = Some (?R y)",
        OF _ assms(1)])
    fix loop :: "builtins \<Rightarrow> pyval dict \<Rightarrow> string \<Rightarrow> string \<Rightarrow> (error + pyval) option"
    fix F c0 cur s y
    assume IH: "\<And>F c0 cur s y. loop F c0 cur s = Some y \<Longrightarrow> c0 = ctx \<longrightarrow> fill_loop F ctx' cur s = Some (?R y)"
    assume body: "(case re_search s of None \<Rightarrow> Some (Inr (PStr s))
      | Some (group0, step_name, parameter_name) \<Rightarrow>
          let value = py_get c0 (step_name @ ''.'' @ parameter_name)
          in if value = PNone
             then Some (Inl (ValueReferenceError cur (step_name @ ''.'' @ parameter_name) (dict_keys c0)))
             else loop F c0 cur (py_replace s group0 (py_str F value))) = Some y"
    show "c0 = ctx \<longrightarrow> fill_loop F ctx' cur s = Some (?R y)"
    proof
      assume c0: "c0 = ctx"
      show "fill_loop F ctx' cur s = Some (?R y)"
      proof (cases "re_search s")
        case None
        with body show ?thesis by (subst fill_loop.simps) auto
      next
        case (Some m)
        obtain tok sn pn where m: "m = (tok, sn, pn)" by (cases m) auto
        have g: "py_get ctx' (sn @ ''.'' @ pn) = py_get ctx (sn @ ''.'' @ pn)"
          using eq by simp
        show ?thesis
        proof (cases "py_get ctx (sn @ ''.'' @ pn) = PNone")
          case True
          with body Some m g c0 show ?thesis by (subst fill_loop.simps) auto
        next
          case False
          with body Some m c0
          have "loop F c0 cur (py_replace s tok (py_str F (py_get ctx (sn @ ''.'' @ pn)))) = Some y"
            by simp
          from IH [OF this] c0
          have "fill_loop F ctx' cur (py_replace s tok (py_str F (py_get ctx (sn @ ''.'' @ pn)))) = Some (?R y)"
            by blast
          then show ?thesis
            using Some m False g by (subst fill_loop.simps) simp
        qed
      qed
    qed
  qed
  then show ?thesis by blast
qed

lemma fill_loop_done:
  "re_search s = None \<Longrightarrow> fill_loop F ctx cur s = Some (Inr (PStr s))"
  by (subst fill_loop.simps) simp

lemma fill_loop_fail:
  "re_search s = Some (tok, sn, pn) \<Longrightarrow> py_get ctx (sn @ ''.'' @ pn) = PNone \<Longrightarrow>
   fill_loop F ctx cur s =
     Some (Inl (ValueReferenceError cur (sn @ ''.'' @ pn) (dict_keys ctx)))"
  by (subst fill_loop.simps) simp

lemma fill_loop_subst:
  "re_search s = Some (tok, sn, pn) \<Longrightarrow> py_get ctx (sn @ ''.'' @ pn) \<noteq> PNone \<Longrightarrow>
   fill_loop F ctx cur s =
     fill_loop F ctx cur (py_replace s tok (py_str F (py_get ctx (sn @ ''.'' @ pn))))"
  by (subst fill_loop.simps) simp

lemma count_at_zero: "count_at s = 0 \<longleftrightarrow> CHR ''@'' \<notin> set s"
  by (induction s) (auto simp: count_at_Cons)

lemma py_replace_self: "tok \<noteq> [] \<Longrightarrow> py_replace tok tok new = new"
  by (subst py_replace.simps, subst py_replace.simps) simp

lemma re_search_at_head:
  "match_at s = Some m \<Longrightarrow> re_search s = Some m"
  by (cases s) (auto simp: match_at_def)

lemmas resolve_eval =
  fill_value_def match_at_def is_space_def is_word_char_def py_get_def dict_get_def
  dict_keys_def py_replace.simps

lemmas model_eval = run_def registered_steps_def active_steps_def DummyStep_def LLMStep_def
  init_input_def construct_def inherited_init_def BaseStep_init_def by_name_def
  set_value_def assign_def stored_def validate_model_def check_content_type_for_file_def check_choices_for_option_def
  check_value_for_option_def new_Parameter_def bind_kwarg_def dict_get_def dict_del_def dict_keys_def
  WorkflowStep_run_def BaseStep_run_def update_context_def try_body_def fill_value_def
  DummyStep_process_def bound_inputs_def input_context_def get_or_def
  match_at_def is_space_def is_word_char_def py_get_def py_replace.simps

section \<open>Lemmas about the parameter model and the runner\<close>

lemma check_file_same: "check_content_type_for_file p = Inr q \<Longrightarrow> q = p"
  by (simp add: check_content_type_for_file_def split: if_splits)

lemma check_choices_same: "check_choices_for_option F p = Inr q \<Longrightarrow> q = p"
  by (simp add: check_choices_for_option_def split: if_splits option.splits)

lemma check_value_same: "check_value_for_option F p = Inr q \<Longrightarrow> q = p"
  by (simp add: check_value_for_option_def split: if_splits option.splits)

lemma validate_model_alt:
  "validate_model F p =
     (case check_content_type_for_file p of
        Inl e \<Rightarrow> Inl (as_validation_error e)
      | Inr _ \<Rightarrow>
          (case check_choices_for_option F p of
             Inl e \<Rightarrow> Inl (as_validation_error e)
           | Inr _ \<Rightarrow>
               (case check_value_for_option F p of
                  Inl e \<Rightarrow> Inl (as_validation_error e)
                | Inr _ \<Rightarrow> Inr p)))"
  unfolding validate_model_def
  apply (cases "check_content_type_for_file p")
   apply simp
  apply (frule check_file_same)
  apply simp
  apply (cases "check_choices_for_option F p")
   apply simp
  apply (frule check_choices_same)
  apply simp
  apply (cases "check_value_for_option F p")
   apply simp
  apply (frule check_value_same)
  apply simp
  done




lemma set_value_result: "set_value F p x = Inr p' \<Longrightarrow> p' = assign p x"
  by (simp add: set_value_def validate_model_alt split: sum.splits)

lemma BaseStep_init_name:
  "BaseStep_init F cls name output_names kwargs = Inr b \<Longrightarrow> bs_name b = name"
  by (auto simp: BaseStep_init_def Let_def split: sum.splits option.splits)

lemma try_body_name:
  "try_body F self context dry_run = Some (x, self', context') \<Longrightarrow>
     bs_name self' = bs_name self \<and> bs_class self' = bs_class self \<and>
     (\<forall>r. x = Inr r \<longrightarrow> sr_step_name r = bs_name self)"
  by (auto simp: try_body_def Let_def split: option.splits prod.splits sum.splits)

lemma BaseStep_run_name:
  assumes "BaseStep_run F self context dry_run = Some (Inr r, self', context')"
  shows "sr_step_name r = bs_name self"
proof (cases "update_context F context (bs_context self)")
  case (Inl e)
  with assms show ?thesis by (simp add: BaseStep_run_def)
next
  case (Inr context0)
  show ?thesis
  proof (cases "try_body F self context0 dry_run")
    case None
    with assms Inr show ?thesis by (simp add: BaseStep_run_def)
  next
    case (Some t)
    obtain x s1 c1 where t: "t = (x, s1, c1)" by (cases t) auto
    from Some t have tb: "try_body F self context0 dry_run = Some (x, s1, c1)" by simp
    from try_body_name [OF tb] assms Inr Some t show ?thesis
      by (cases x) (auto simp: BaseStep_run_def failure_result_def split: if_splits)
  qed
qed

lemma init_input_bound:
  assumes "init_input F registry s = (None, s1)" and "validate_type registry s"
  shows "\<exists>b. ws_step s1 = Some b \<and> bs_name b = ws_name s"
  using assms
  by (auto simp: init_input_def validate_type_def construct_def Let_def BaseStep_init_name
        split: option.splits sum.splits if_splits prod.splits)

lemma WorkflowStep_run_name:
  assumes "WorkflowStep_run F s1 context dry_run = Some (Inr r, s2, context')"
    and "ws_step s1 = Some b"
  shows "sr_step_name r = bs_name b"
  using assms BaseStep_run_name [of F b _ dry_run r]
  by (auto simp: WorkflowStep_run_def split: option.splits)

lemma run_steps_results:
  assumes "run_steps F registry dry_run steps ctx result status = Some (Inr (res, st), steps', ctx')"
  shows "\<exists>new. res = result @ new \<and> length new = length steps \<and>
           st = (if \<exists>r \<in> set new. sr_status r = STEP_FAILURE then FAILURE else status) \<and>
           (list_all (validate_type registry) steps \<longrightarrow> map sr_step_name new = map ws_name steps)"
  using assms
proof (induction steps arbitrary: ctx result status steps' ctx')
  case Nil
  then show ?case by simp
next
  case (Cons s steps)
  from Cons.prems obtain s1 where i: "init_input F registry s = (None, s1)"
    by (auto split: prod.splits option.splits)
  from Cons.prems i obtain r s2 c1 where
    w: "WorkflowStep_run F s1 ctx dry_run = Some (Inr r, s2, c1)"
    by (auto split: option.splits prod.splits sum.splits)
  let ?st = "if sr_status r = STEP_FAILURE then FAILURE else status"
  from Cons.prems i w obtain rest' where
    rec: "run_steps F registry dry_run steps c1 (result @ [r]) ?st = Some (Inr (res, st), rest', ctx')"
    by (auto split: option.splits prod.splits)
  from Cons.IH [OF rec] obtain new where
    n: "res = (result @ [r]) @ new" "length new = length steps"
       "st = (if \<exists>x \<in> set new. sr_status x = STEP_FAILURE then FAILURE else ?st)"
       "list_all (validate_type registry) steps \<longrightarrow> map sr_step_name new = map ws_name steps"
    by blast
  have name: "validate_type registry s \<Longrightarrow> sr_step_name r = ws_name s"
    using init_input_bound [OF i] WorkflowStep_run_name [OF w] by auto
  have "res = result @ (r # new) \<and> length (r # new) = length (s # steps) \<and>
        st = (if \<exists>x \<in> set (r # new). sr_status x = STEP_FAILURE then FAILURE else status) \<and>
        (list_all (validate_type registry) (s # steps) \<longrightarrow>
           map sr_step_name (r # new) = map ws_name (s # steps))"
    using n name by auto
  then show ?case by blast
qed

lemma run_unfold:
  assumes "(if dry_run then seed_dry_run (wf_inputs self) (case run_inputs of None \<Rightarrow> [] | Some d \<Rightarrow> d)
            else (None, case run_inputs of None \<Rightarrow> [] | Some d \<Rightarrow> d)) = (se, ri1)"
  shows "run F registry self run_inputs dry_run =
     (case se of
        Some e \<Rightarrow> Some (Inl e, self, ri1)
      | None \<Rightarrow>
          (case bind_inputs F (wf_inputs self) ri1 of
             (Some e, params, input_errors) \<Rightarrow> Some (Inl e, self\<lparr>wf_inputs := params\<rparr>, ri1)
           | (None, params, input_errors) \<Rightarrow>
               if input_errors \<noteq> [] then
                 Some (Inr (input_failure input_errors), self\<lparr>wf_inputs := params\<rparr>, ri1)
               else
                 (case run_steps F registry dry_run (wf_steps self) (input_context params) [] SUCCESS of
                    None \<Rightarrow> None
                  | Some (Inl e, steps, c) \<Rightarrow>
                      Some (Inl e, self\<lparr>wf_inputs := params, wf_steps := steps\<rparr>, ri1)
                  | Some (Inr (result, status), steps, c) \<Rightarrow>
                      Some (Inr \<lparr> rr_status = status, rr_result = result \<rparr>,
                            self\<lparr>wf_inputs := params, wf_steps := steps\<rparr>, ri1))))"
proof (cases dry_run)
  case True
  with assms show ?thesis
    by (simp add: run_def Let_def split: option.splits prod.splits sum.splits)
next
  case False
  with assms show ?thesis
    by (auto simp: run_def Let_def split: option.splits prod.splits sum.splits)
qed

section \<open>Claims about variable resolution\<close>

text \<open>
  C3 (as amended). \<open>fill_value\<close> returns every non-string value unchanged. On a string
  it looks for the first reference token; with none left it returns the string. The key
  \<open>stepName.parameterName\<close> is looked up in the context: when it is present with a
  value other than None, every occurrence of the token's text is replaced by the
  stringified value and the scan starts again on the new string; when it is missing, or
  present with the value None, a ValueReferenceError is raised that names the current
  step, the key of the token and the list of all context keys. A string that is returned
  holds no token, and the loop returns whenever no stringified context value holds an
  \<open>@\<close>.
\<close>

theorem fill_value_algorithm:
  "((\<forall>s. v \<noteq> PStr s) \<longrightarrow> fill_value F v ctx cur = Some (Inr v)) \<and>
   (re_search s = None \<longrightarrow> fill_value F (PStr s) ctx cur = Some (Inr (PStr s))) \<and>
   (re_search s = Some (tok, sn, pn) \<and> dict_get ctx (sn @ ''.'' @ pn) = Some x \<and> x \<noteq> PNone \<longrightarrow>
      fill_value F (PStr s) ctx cur =
        fill_value F (PStr (py_replace s tok (py_str F x))) ctx cur) \<and>
   (re_search s = Some (tok, sn, pn) \<and>
      (dict_get ctx (sn @ ''.'' @ pn) = None \<or> dict_get ctx (sn @ ''.'' @ pn) = Some PNone) \<longrightarrow>
      fill_value F (PStr s) ctx cur =
        Some (Inl (ValueReferenceError cur (sn @ ''.'' @ pn) (dict_keys ctx)))) \<and>
   (fill_value F (PStr s) ctx cur = Some (Inr r) \<longrightarrow> (\<exists>s'. r = PStr s' \<and> re_search s' = None)) \<and>
   ((\<forall>y \<in> snd ` set ctx. CHR ''@'' \<notin> set (py_str F y)) \<longrightarrow>
      (\<exists>res. fill_value F v ctx cur = Some res))"
proof (intro conjI impI)
  assume "\<forall>s. v \<noteq> PStr s"
  then show "fill_value F v ctx cur = Some (Inr v)"
    by (cases v) (auto simp: fill_value_def)
next
  assume "re_search s = None"
  then show "fill_value F (PStr s) ctx cur = Some (Inr (PStr s))"
    by (simp add: fill_value_def fill_loop_done)
next
  assume a: "re_search s = Some (tok, sn, pn) \<and> dict_get ctx (sn @ ''.'' @ pn) = Some x \<and> x \<noteq> PNone"
  then have "py_get ctx (sn @ ''.'' @ pn) = x" "py_get ctx (sn @ ''.'' @ pn) \<noteq> PNone"
    by (auto simp: py_get_def)
  with a show "fill_value F (PStr s) ctx cur =
        fill_value F (PStr (py_replace s tok (py_str F x))) ctx cur"
    using fill_loop_subst [of s tok sn pn ctx F cur] by (simp add: fill_value_def)
next
  assume a: "re_search s = Some (tok, sn, pn) \<and>
      (dict_get ctx (sn @ ''.'' @ pn) = None \<or> dict_get ctx (sn @ ''.'' @ pn) = Some PNone)"
  then have "py_get ctx (sn @ ''.'' @ pn) = PNone"
    by (auto simp: py_get_def)
  with a show "fill_value F (PStr s) ctx cur =
        Some (Inl (ValueReferenceError cur (sn @ ''.'' @ pn) (dict_keys ctx)))"
    by (simp add: fill_value_def fill_loop_fail)
next
  assume "fill_value F (PStr s) ctx cur = Some (Inr r)"
  then have "fill_loop F ctx cur s = Some (Inr r)" by (simp add: fill_value_def)
  from fill_loop_result [OF this] show "\<exists>s'. r = PStr s' \<and> re_search s' = None" by simp
next
  assume "\<forall>y \<in> snd ` set ctx. CHR ''@'' \<notin> set (py_str F y)"
  then have c: "\<forall>y \<in> snd ` set ctx. count_at (py_str F y) = 0"
    by (simp add: count_at_zero)
  show "\<exists>res. fill_value F v ctx cur = Some res"
  proof (cases v)
    case (PStr s0)
    then show ?thesis using fill_loop_terminates [OF c] by (simp add: fill_value_def)
  qed (simp_all add: fill_value_def)
qed

theorem fill_value_algorithm_witness:
  "fill_value example_builtins (PInt 7) [(''a.b'', PStr ''X'')] ''step2'' = Some (Inr (PInt 7)) \<and>
   re_search ''plain text'' = None \<and>
   fill_value example_builtins (PStr ''plain text'') [(''a.b'', PStr ''X'')] ''step2''
     = Some (Inr (PStr ''plain text'')) \<and>
   re_search (''Hi '' @ at_brace @ '' a.b }!'') = Some ((at_brace @ '' a.b }''), ''a'', ''b'') \<and>
   dict_get [(''a.b'', PStr ''X'')] (''a'' @ ''.'' @ ''b'') = Some (PStr ''X'') \<and>
   fill_value example_builtins (PStr (''Hi '' @ at_brace @ '' a.b }!'')) [(''a.b'', PStr ''X'')] ''step2''
     = fill_value example_builtins (PStr ''Hi X!'') [(''a.b'', PStr ''X'')] ''step2'' \<and>
   re_search (at_brace @ ''c.d}'') = Some ((at_brace @ ''c.d}''), ''c'', ''d'') \<and>
   dict_get [(''a.b'', PStr ''X'')] (''c'' @ ''.'' @ ''d'') = None \<and>
   fill_value example_builtins (PStr (at_brace @ ''c.d}'')) [(''a.b'', PStr ''X'')] ''step2''
     = Some (Inl (ValueReferenceError ''step2'' ''c.d'' [''a.b''])) \<and>
   (\<exists>res. fill_value example_builtins (PStr (''Hi '' @ at_brace @ '' a.b }!'')) [(''a.b'', PStr ''X'')] ''step2''
      = Some res)"
proof -
  let ?ctx = "[(''a.b'', PStr ''X'')]"
  have t1: "re_search ''plain text'' = None"
    by (simp add: resolve_eval)
  have t2: "re_search (''Hi '' @ at_brace @ '' a.b }!'') = Some ((at_brace @ '' a.b }''), ''a'', ''b'')"
    by (simp add: resolve_eval)
  have t3: "re_search (at_brace @ ''c.d}'') = Some ((at_brace @ ''c.d}''), ''c'', ''d'')"
    by (simp add: resolve_eval)
  have r: "py_replace (''Hi '' @ at_brace @ '' a.b }!'') (at_brace @ '' a.b }'') ''X'' = ''Hi X!''"
    by (simp add: resolve_eval)
  have at: "\<forall>y \<in> snd ` set ?ctx. CHR ''@'' \<notin> set (py_str example_builtins y)"
    by simp
  note A = fill_value_algorithm [of "PInt 7" example_builtins ?ctx "''step2''" "''plain text''"]
  note B = fill_value_algorithm [of "PStr (''Hi '' @ at_brace @ '' a.b }!'')" example_builtins ?ctx "''step2''"
             "(''Hi '' @ at_brace @ '' a.b }!'')" "(at_brace @ '' a.b }'')" "''a''" "''b''" "PStr ''X''"]
  note C = fill_value_algorithm [of "PInt 7" example_builtins ?ctx "''step2''"
             "(at_brace @ ''c.d}'')" "(at_brace @ ''c.d}'')" "''c''" "''d''"]
  from A t1 have a: "fill_value example_builtins (PInt 7) ?ctx ''step2'' = Some (Inr (PInt 7))"
    "fill_value example_builtins (PStr ''plain text'') ?ctx ''step2'' = Some (Inr (PStr ''plain text''))"
    by simp_all
  from B t2 r have b1: "fill_value example_builtins (PStr (''Hi '' @ at_brace @ '' a.b }!'')) ?ctx ''step2''
     = fill_value example_builtins (PStr ''Hi X!'') ?ctx ''step2''"
    by (simp add: dict_get_def)
  from B at have b2:
    "\<exists>res. fill_value example_builtins (PStr (''Hi '' @ at_brace @ '' a.b }!'')) ?ctx ''step2'' = Some res"
    by blast
  note b = b1 b2
  from C t3 have c: "fill_value example_builtins (PStr (at_brace @ ''c.d}'')) ?ctx ''step2''
     = Some (Inl (ValueReferenceError ''step2'' ''c.d'' [''a.b'']))"
    by (simp add: dict_get_def dict_keys_def)
  show ?thesis using a b c t1 t2 t3 by (simp add: dict_get_def)
qed

theorem fill_value_none_entry_counterexample:
  "dict_get [(''a.b'', PNone)] ''a.b'' = Some PNone \<and>
   py_str example_builtins PNone = ''None'' \<and>
   fill_value example_builtins (PStr (at_brace @ ''a.b}'')) [(''a.b'', PNone)] ''step2''
     = Some (Inl (ValueReferenceError ''step2'' ''a.b'' [''a.b''])) \<and>
   fill_value example_builtins (PStr (at_brace @ ''a.b}'')) [(''a.b'', PNone)] ''step2''
     \<noteq> Some (Inr (PStr ''None''))"
  by (simp add: resolve_eval fill_loop.simps)

text \<open>
  C8 (as amended). A reference token is recognised at the head of a string exactly when
  the string starts with \<open>@\<close> and \<open>{\<close>, a step name, a dot, a parameter name and
  \<open>}\<close>, where both names match \<open>[a-zA-Z0-9_]+\<close> and each of the four gaps around
  the names is a (possibly empty) run of blanks, that is of the space character only;
  the groups are the two names without the blanks, and the context is looked up under
  \<open>stepName.parameterName\<close> built from them.
\<close>

theorem reference_token_recognition:
  "(match_at s = Some (tok, sn, pn) \<longleftrightarrow>
      (\<exists>sp1 sp2 sp3 sp4 rest.
          list_all is_space sp1 \<and> list_all is_space sp2 \<and>
          list_all is_space sp3 \<and> list_all is_space sp4 \<and>
          is_name sn \<and> is_name pn \<and>
          tok = reference_token sp1 sn sp2 sp3 pn sp4 \<and> s = tok @ rest)) \<and>
   (list_all is_space sp1 \<and> list_all is_space sp2 \<and>
    list_all is_space sp3 \<and> list_all is_space sp4 \<and> is_name sn \<and> is_name pn \<longrightarrow>
      fill_value F (PStr (reference_token sp1 sn sp2 sp3 pn sp4)) ctx cur =
        (if py_get ctx (sn @ ''.'' @ pn) = PNone
         then Some (Inl (ValueReferenceError cur (sn @ ''.'' @ pn) (dict_keys ctx)))
         else fill_value F (PStr (py_str F (py_get ctx (sn @ ''.'' @ pn)))) ctx cur))"
proof (intro conjI impI iffI)
  assume "match_at s = Some (tok, sn, pn)"
  from match_at_sound [OF this]
  show "\<exists>sp1 sp2 sp3 sp4 rest.
          list_all is_space sp1 \<and> list_all is_space sp2 \<and>
          list_all is_space sp3 \<and> list_all is_space sp4 \<and>
          is_name sn \<and> is_name pn \<and>
          tok = reference_token sp1 sn sp2 sp3 pn sp4 \<and> s = tok @ rest" .
next
  assume "\<exists>sp1 sp2 sp3 sp4 rest.
          list_all is_space sp1 \<and> list_all is_space sp2 \<and>
          list_all is_space sp3 \<and> list_all is_space sp4 \<and>
          is_name sn \<and> is_name pn \<and>
          tok = reference_token sp1 sn sp2 sp3 pn sp4 \<and> s = tok @ rest"
  then show "match_at s = Some (tok, sn, pn)"
    using match_at_complete by blast
next
  let ?tok = "reference_token sp1 sn sp2 sp3 pn sp4"
  assume a: "list_all is_space sp1 \<and> list_all is_space sp2 \<and>
    list_all is_space sp3 \<and> list_all is_space sp4 \<and> is_name sn \<and> is_name pn"
  then have "match_at (?tok @ []) = Some (?tok, sn, pn)"
    by (intro match_at_complete) auto
  then have rs: "re_search ?tok = Some (?tok, sn, pn)"
    using re_search_at_head by simp
  have ne: "?tok \<noteq> []" by (simp add: reference_token_def)
  show "fill_value F (PStr ?tok) ctx cur =
        (if py_get ctx (sn @ ''.'' @ pn) = PNone
         then Some (Inl (ValueReferenceError cur (sn @ ''.'' @ pn) (dict_keys ctx)))
         else fill_value F (PStr (py_str F (py_get ctx (sn @ ''.'' @ pn)))) ctx cur)"
    using fill_loop_fail [OF rs] fill_loop_subst [OF rs] py_replace_self [OF ne]
    by (simp add: fill_value_def)
qed

theorem reference_token_recognition_witness:
  "match_at (at_brace @ '' step1 .result  } tail'') = Some (at_brace @ '' step1 .result  }'', ''step1'', ''result'') \<and>
   list_all is_space '' '' \<and> list_all is_space '''' \<and> list_all is_space ''  '' \<and>
   is_name ''step1'' \<and> is_name ''result'' \<and>
   fill_value example_builtins (PStr (at_brace @ '' step1 .result  }''))
      [(''step1.result'', PStr ''X'')] ''step2'' = Some (Inr (PStr ''X''))"
proof -
  have sp: "list_all is_space '' ''" "list_all is_space ''''" "list_all is_space ''  ''"
    by (simp_all add: is_space_def)
  have nm: "is_name ''step1''" "is_name ''result''"
    by (simp_all add: is_name_def is_word_char_def)
  note T = reference_token_recognition [of "at_brace @ '' step1 .result  } tail''"
      "at_brace @ '' step1 .result  }''" "''step1''" "''result''"
      "'' ''" "'' ''" "''''" "''  ''" example_builtins "[(''step1.result'', PStr ''X'')]" "''step2''"]
  have ex: "\<exists>sp1 sp2 sp3 sp4 rest.
          list_all is_space sp1 \<and> list_all is_space sp2 \<and>
          list_all is_space sp3 \<and> list_all is_space sp4 \<and>
          is_name ''step1'' \<and> is_name ''result'' \<and>
          at_brace @ '' step1 .result  }'' = reference_token sp1 ''step1'' sp2 sp3 ''result'' sp4 \<and>
          at_brace @ '' step1 .result  } tail'' = (at_brace @ '' step1 .result  }'') @ rest"
    apply (rule exI [of _ "'' ''"], rule exI [of _ "'' ''"], rule exI [of _ "''''"],
           rule exI [of _ "''  ''"], rule exI [of _ "'' tail''"])
    using sp nm by (simp add: reference_token_def)
  from T ex have m: "match_at (at_brace @ '' step1 .result  } tail'')
      = Some (at_brace @ '' step1 .result  }'', ''step1'', ''result'')"
    by blast
  from T sp nm have "fill_value example_builtins (PStr (reference_token '' '' ''step1'' '' '' '''' ''result'' ''  ''))
      [(''step1.result'', PStr ''X'')] ''step2'' =
      fill_value example_builtins (PStr ''X'') [(''step1.result'', PStr ''X'')] ''step2''"
    by (simp add: py_get_def dict_get_def)
  then have f: "fill_value example_builtins (PStr (at_brace @ '' step1 .result  }''))
      [(''step1.result'', PStr ''X'')] ''step2'' = Some (Inr (PStr ''X''))"
    by (simp add: reference_token_def resolve_eval fill_loop.simps)
  show ?thesis using m f sp nm by simp
qed

theorem tab_in_token_counterexample:
  "fill_value example_builtins (PStr (at_brace @ [CHR 0x09] @ ''step1.result}''))
      [(''step1.result'', PStr ''X'')] ''step2''
     = Some (Inr (PStr (at_brace @ [CHR 0x09] @ ''step1.result}''))) \<and>
   fill_value example_builtins (PStr (at_brace @ '' step1.result}''))
      [(''step1.result'', PStr ''X'')] ''step2''
     = Some (Inr (PStr ''X''))"
  by (simp add: resolve_eval fill_loop.simps)

text \<open>
  C9. When the first reference token of a string has a key that is present in the
  context with the value None, \<open>fill_value\<close> raises the ValueReferenceError it raises
  for a missing key: the current step, the key and the list of the context's keys. More
  generally two contexts that answer every \<open>get\<close> alike (they differ only in keys
  that one holds with the value None and the other lacks) give the same outcome on every
  value: both loop forever, or both return the same value, or both raise the reference
  error for the same key, each listing its own keys.
\<close>

theorem none_entry_like_missing_key:
  "(re_search s = Some (tok, sn, pn) \<and> dict_get ctx (sn @ ''.'' @ pn) = Some PNone \<longrightarrow>
      fill_value F (PStr s) ctx cur =
        Some (Inl (ValueReferenceError cur (sn @ ''.'' @ pn) (dict_keys ctx)))) \<and>
   (re_search s = Some (tok, sn, pn) \<and> dict_get ctx' (sn @ ''.'' @ pn) = None \<longrightarrow>
      fill_value F (PStr s) ctx' cur =
        Some (Inl (ValueReferenceError cur (sn @ ''.'' @ pn) (dict_keys ctx')))) \<and>
   ((\<forall>k. py_get ctx k = py_get ctx' k) \<longrightarrow>
      (fill_value F v ctx cur = None \<longleftrightarrow> fill_value F v ctx' cur = None) \<and>
      (\<forall>r. fill_value F v ctx cur = Some (Inr r) \<longleftrightarrow> fill_value F v ctx' cur = Some (Inr r)) \<and>
      (\<forall>e. fill_value F v ctx cur = Some (Inl e) \<longrightarrow>
            (\<exists>var. e = ValueReferenceError cur var (dict_keys ctx) \<and>
                   fill_value F v ctx' cur = Some (Inl (ValueReferenceError cur var (dict_keys ctx'))))))"
proof (intro conjI impI)
  assume "re_search s = Some (tok, sn, pn) \<and> dict_get ctx (sn @ ''.'' @ pn) = Some PNone"
  then show "fill_value F (PStr s) ctx cur =
        Some (Inl (ValueReferenceError cur (sn @ ''.'' @ pn) (dict_keys ctx)))"
    by (simp add: fill_value_def fill_loop_fail py_get_def)
next
  assume "re_search s = Some (tok, sn, pn) \<and> dict_get ctx' (sn @ ''.'' @ pn) = None"
  then show "fill_value F (PStr s) ctx' cur =
        Some (Inl (ValueReferenceError cur (sn @ ''.'' @ pn) (dict_keys ctx')))"
    by (simp add: fill_value_def fill_loop_fail py_get_def)
next
  assume eq: "\<forall>k. py_get ctx k = py_get ctx' k"
  then have eq': "\<forall>k. py_get ctx' k = py_get ctx k" by simp
  show "fill_value F v ctx cur = None \<longleftrightarrow> fill_value F v ctx' cur = None"
  proof (cases v)
    case (PStr s0)
    have "fill_loop F ctx cur s0 = None \<longleftrightarrow> fill_loop F ctx' cur s0 = None"
      using fill_loop_same_lookups [OF _ eq, of F cur s0]
            fill_loop_same_lookups [OF _ eq', of F cur s0]
      by (metis option.distinct(1) option.exhaust)
    then show ?thesis using PStr by (simp add: fill_value_def)
  qed (simp_all add: fill_value_def)
next
  assume eq: "\<forall>k. py_get ctx k = py_get ctx' k"
  then have eq': "\<forall>k. py_get ctx' k = py_get ctx k" by simp
  show "\<forall>r. fill_value F v ctx cur = Some (Inr r) \<longleftrightarrow> fill_value F v ctx' cur = Some (Inr r)"
  proof (cases v)
    case (PStr s0)
    have "fill_loop F ctx cur s0 = Some (Inr r) \<longleftrightarrow> fill_loop F ctx' cur s0 = Some (Inr r)" for r
      using fill_loop_same_lookups [OF _ eq, of F cur s0 "Inr r"]
            fill_loop_same_lookups [OF _ eq', of F cur s0 "Inr r"]
      by auto
    then show ?thesis using PStr by (simp add: fill_value_def)
  qed (simp_all add: fill_value_def)
next
  assume eq: "\<forall>k. py_get ctx k = py_get ctx' k"
  show "\<forall>e. fill_value F v ctx cur = Some (Inl e) \<longrightarrow>
            (\<exists>var. e = ValueReferenceError cur var (dict_keys ctx) \<and>
                   fill_value F v ctx' cur = Some (Inl (ValueReferenceError cur var (dict_keys ctx'))))"
  proof (cases v)
    case (PStr s0)
    have "\<exists>var. e = ValueReferenceError cur var (dict_keys ctx) \<and>
            fill_loop F ctx' cur s0 = Some (Inl (ValueReferenceError cur var (dict_keys ctx')))"
      if h: "fill_loop F ctx cur s0 = Some (Inl e)" for e
    proof -
      from fill_loop_result [OF h] obtain var where
        e: "e = ValueReferenceError cur var (dict_keys ctx)" by auto
      from fill_loop_same_lookups [OF h eq] e show ?thesis by simp
    qed
    then show ?thesis using PStr by (simp add: fill_value_def)
  qed (simp_all add: fill_value_def)
qed

theorem none_entry_like_missing_key_witness:
  "re_search (''see '' @ at_brace @ ''a.b}'') = Some (at_brace @ ''a.b}'', ''a'', ''b'') \<and>
   dict_get [(''a.b'', PNone)] (''a'' @ ''.'' @ ''b'') = Some PNone \<and>
   dict_get [] (''a'' @ ''.'' @ ''b'') = (None :: pyval option) \<and>
   (\<forall>k. py_get [(''a.b'', PNone)] k = py_get [] k) \<and>
   fill_value example_builtins (PStr (''see '' @ at_brace @ ''a.b}'')) [(''a.b'', PNone)] ''step2''
     = Some (Inl (ValueReferenceError ''step2'' ''a.b'' [''a.b''])) \<and>
   fill_value example_builtins (PStr (''see '' @ at_brace @ ''a.b}'')) [] ''step2''
     = Some (Inl (ValueReferenceError ''step2'' ''a.b'' []))"
proof -
  have rs: "re_search (''see '' @ at_brace @ ''a.b}'') = Some (at_brace @ ''a.b}'', ''a'', ''b'')"
    by (simp add: resolve_eval)
  have g: "\<forall>k. py_get [(''a.b'', PNone)] k = py_get [] k"
    by (simp add: py_get_def dict_get_def)
  note T = none_entry_like_missing_key [of "''see '' @ at_brace @ ''a.b}''" "at_brace @ ''a.b}''"
     "''a''" "''b''" "[(''a.b'', PNone)]" example_builtins "''step2''" "[]"
     "PStr (''see '' @ at_brace @ ''a.b}'')"]
  from T rs have a: "fill_value example_builtins (PStr (''see '' @ at_brace @ ''a.b}'')) [(''a.b'', PNone)] ''step2''
     = Some (Inl (ValueReferenceError ''step2'' ''a.b'' [''a.b'']))"
    by (simp add: dict_get_def dict_keys_def)
  from T g a have b: "fill_value example_builtins (PStr (''see '' @ at_brace @ ''a.b}'')) [] ''step2''
     = Some (Inl (ValueReferenceError ''step2'' ''a.b'' []))"
    by (auto simp: dict_keys_def)
  show ?thesis using rs g a b by (simp add: dict_get_def)
qed

section \<open>Claims about the parameter model\<close>

text \<open>
  C5 (as amended). The property \<open>v\<close> takes the value when it is set (not None) and the
  default otherwise, reads the PydanticUndefined sentinel as None, and coerces the result
  to the declared data type: STRING stringifies, NUMBER parses to float except that None
  stays None, BOOLEAN truthy-casts, and every other data type returns it unconverted.
\<close>

theorem resolved_value_contract:
  "Parameter_v F p =
     (let x = (if p_value p \<noteq> PNone then p_value p else p_default p);
          x = (if x = PUndefined then PNone else x)
      in if p_data_type p = NUMBER \<and> x = PNone then Inr PNone
         else coerce_spec F (p_data_type p) x)"
  by (simp add: Parameter_v_def coerce_spec_def Let_def)

theorem resolved_value_contract_witness:
  "Parameter_v example_builtins ((new_Parameter ''flag'' BOOLEAN)\<lparr>p_default := PInt 2\<rparr>)
     = Inr (PBool True) \<and>
   Parameter_v example_builtins ((new_Parameter ''title'' STRING)\<lparr>p_value := PInt 42, p_default := PStr ''x''\<rparr>)
     = Inr (PStr ''42'')"
  using resolved_value_contract [of example_builtins "(new_Parameter ''flag'' BOOLEAN)\<lparr>p_default := PInt 2\<rparr>"]
        resolved_value_contract [of example_builtins
           "(new_Parameter ''title'' STRING)\<lparr>p_value := PInt 42, p_default := PStr ''x''\<rparr>"]
  by (simp add: new_Parameter_def coerce_spec_def py_bool_def str_int_def str_nat.simps digit_char_def)

theorem number_without_value_counterexample:
  "Parameter_v example_builtins (new_Parameter ''amount'' NUMBER) = Inr PNone \<and>
   resolvedValue_spec example_builtins (new_Parameter ''amount'' NUMBER)
     = Inl (TypeError (''float() argument must be a string or a real number, not ''
                        @ [CHR 0x27] @ ''NoneType'' @ [CHR 0x27])) \<and>
   Parameter_v example_builtins ((new_Parameter ''payload'' OBJECT)\<lparr>p_value := PUndefined\<rparr>)
     = Inr PNone \<and>
   resolvedValue_spec example_builtins ((new_Parameter ''payload'' OBJECT)\<lparr>p_value := PUndefined\<rparr>)
     = Inr PUndefined"
  by (simp add: Parameter_v_def resolvedValue_spec_def coerce_spec_def new_Parameter_def py_float_def)

section \<open>Claims about the runner\<close>



























lemma dict_get_set: "dict_get (dict_set d k x) k' = (if k' = k then Some x else dict_get d k')"
  by (induction d) (auto simp: dict_get_def)

lemma seed_dry_run_entries:
  assumes "\<forall>p \<in> set ps. p_data_type p \<in> {STRING, NUMBER, BOOLEAN}"
  shows "\<exists>d. seed_dry_run ps run_inputs = (None, d) \<and>
           (\<forall>p \<in> set ps. \<exists>q \<in> set ps. \<exists>x. p_name q = p_name p \<and> get_dry_run_value q = Inr x \<and>
                dict_get d (p_name p) = Some x) \<and>
           (\<forall>k. k \<notin> p_name ` set ps \<longrightarrow> dict_get d k = dict_get run_inputs k)"
  using assms
proof (induction ps arbitrary: run_inputs)
  case Nil
  then show ?case by simp
next
  case (Cons p ps)
  from Cons.prems obtain x where x: "get_dry_run_value p = Inr x"
    by (auto simp: get_dry_run_value_def)
  from Cons.prems have "\<forall>p \<in> set ps. p_data_type p \<in> {STRING, NUMBER, BOOLEAN}" by simp
  from Cons.IH [OF this, of "dict_set run_inputs (p_name p) x"] obtain d where
    d: "seed_dry_run ps (dict_set run_inputs (p_name p) x) = (None, d)"
    and inside: "\<forall>p' \<in> set ps. \<exists>q \<in> set ps. \<exists>y. p_name q = p_name p' \<and> get_dry_run_value q = Inr y \<and>
                dict_get d (p_name p') = Some y"
    and outside: "\<forall>k. k \<notin> p_name ` set ps \<longrightarrow> dict_get d k = dict_get (dict_set run_inputs (p_name p) x) k"
    by blast
  have s: "seed_dry_run (p # ps) run_inputs = (None, d)" using x d by simp
  have head: "\<exists>q \<in> set (p # ps). \<exists>y. p_name q = p_name p \<and> get_dry_run_value q = Inr y \<and>
                dict_get d (p_name p) = Some y"
  proof (cases "p_name p \<in> p_name ` set ps")
    case True
    then obtain p' where "p' \<in> set ps" "p_name p' = p_name p" by auto
    with inside show ?thesis by (metis list.set_intros(2))
  next
    case False
    with outside have "dict_get d (p_name p) = Some x" by (simp add: dict_get_set)
    with x show ?thesis by auto
  qed
  have tail: "\<forall>p' \<in> set ps. \<exists>q \<in> set (p # ps). \<exists>y. p_name q = p_name p' \<and> get_dry_run_value q = Inr y \<and>
                dict_get d (p_name p') = Some y"
    using inside by (metis list.set_intros(2))
  have out: "\<forall>k. k \<notin> p_name ` set (p # ps) \<longrightarrow> dict_get d k = dict_get run_inputs k"
    using outside by (simp add: dict_get_set)
  show ?case using s head tail out by auto
qed

lemma run_dry_inputs:
  assumes "run F registry wdef (Some run_inputs) True = Some (out, wdef', run_inputs')"
  shows "run_inputs' = snd (seed_dry_run (wf_inputs wdef) run_inputs)"
  using assms
  by (auto simp: run_def Let_def split: prod.splits option.splits sum.splits if_splits)

text \<open>
  C10. A dry run writes into the caller's dictionary of run inputs: when the call is
  over (it returned or raised), the dictionary holds under the name of every declared
  input the dry-run placeholder of a declared input of that name (of the input itself
  when names are not repeated), whatever the caller had stored there; entries under
  other names are as the caller left them. The declared inputs are of the data types
  that have a placeholder (STRING, NUMBER, BOOLEAN), as in every definition that passed
  the dry run of its construction.
\<close>

theorem dry_run_overwrites_run_inputs:
  assumes "run F registry wdef (Some run_inputs) True = Some (out, wdef', run_inputs')"
    and "\<forall>p \<in> set (wf_inputs wdef). p_data_type p \<in> {STRING, NUMBER, BOOLEAN}"
  shows "(\<forall>p \<in> set (wf_inputs wdef). \<exists>q \<in> set (wf_inputs wdef). \<exists>x.
            p_name q = p_name p \<and> get_dry_run_value q = Inr x \<and>
            dict_get run_inputs' (p_name p) = Some x) \<and>
         (distinct (map p_name (wf_inputs wdef)) \<longrightarrow>
            (\<forall>p \<in> set (wf_inputs wdef). \<exists>x. get_dry_run_value p = Inr x \<and>
                 dict_get run_inputs' (p_name p) = Some x)) \<and>
         (\<forall>k. k \<notin> p_name ` set (wf_inputs wdef) \<longrightarrow> dict_get run_inputs' k = dict_get run_inputs k)"
proof -
  from seed_dry_run_entries [OF assms(2), of run_inputs] run_dry_inputs [OF assms(1)]
  have a: "\<forall>p \<in> set (wf_inputs wdef). \<exists>q \<in> set (wf_inputs wdef). \<exists>x.
            p_name q = p_name p \<and> get_dry_run_value q = Inr x \<and>
            dict_get run_inputs' (p_name p) = Some x"
    and b: "\<forall>k. k \<notin> p_name ` set (wf_inputs wdef) \<longrightarrow> dict_get run_inputs' k = dict_get run_inputs k"
    by auto
  have c: "\<exists>x. get_dry_run_value p = Inr x \<and> dict_get run_inputs' (p_name p) = Some x"
    if d: "distinct (map p_name (wf_inputs wdef))" and p: "p \<in> set (wf_inputs wdef)" for p
  proof -
    from a p obtain q x where q: "q \<in> set (wf_inputs wdef)" "p_name q = p_name p"
      "get_dry_run_value q = Inr x" "dict_get run_inputs' (p_name p) = Some x" by blast
    from d p q(1,2) have "q = p" by (meson distinct_map inj_onD)
    with q show ?thesis by blast
  qed
  show ?thesis using a b c by blast
qed

theorem dry_run_overwrites_run_inputs_witness:
  "list_all (\<lambda>p. p_data_type p \<in> {STRING, NUMBER, BOOLEAN}) (wf_inputs readonly_workflow) \<and>
   (\<exists>out wdef' run_inputs'.
      run example_builtins (registered_steps example_builtins no_llm) readonly_workflow
          (Some [(''greeting'', PStr ''y''), (''other'', PInt 1)]) True
        = Some (out, wdef', run_inputs') \<and>
      dict_get run_inputs' ''greeting'' = Some (PStr ''dummy'') \<and>
      dict_get run_inputs' ''other'' = Some (PInt 1))"
proof -
  let ?ri = "[(''greeting'', PStr ''y''), (''other'', PInt 1)]"
  have ty: "\<forall>p \<in> set (wf_inputs readonly_workflow). p_data_type p \<in> {STRING, NUMBER, BOOLEAN}"
    by (simp add: readonly_workflow_def greeting_input_def)
  have "\<exists>r. run example_builtins (registered_steps example_builtins no_llm) readonly_workflow
          (Some ?ri) True = Some r"
    by (simp add: readonly_workflow_def greeting_input_def model_eval Let_def fill_loop.simps
          get_dry_run_value_def value_validation_def)
  then obtain out wdef' run_inputs' where
    r: "run example_builtins (registered_steps example_builtins no_llm) readonly_workflow
          (Some ?ri) True = Some (out, wdef', run_inputs')"
    by (metis prod_cases3)
  note T = dry_run_overwrites_run_inputs [OF r ty]
  have g: "dict_get run_inputs' ''greeting'' = Some (PStr ''dummy'')"
    using T by (simp add: readonly_workflow_def greeting_input_def get_dry_run_value_def)
  have o: "dict_get run_inputs' ''other'' = Some (PInt 1)"
    using T by (simp add: readonly_workflow_def greeting_input_def dict_get_def)
  show ?thesis using ty r g o by (auto simp: list_all_iff)
qed

text \<open>
  C6. A workflow without declared inputs whose only step has type \<open>dummy\<close> and the
  raw input \<open>input = "Hello, World!"\<close>, run live, returns status SUCCESS and one
  step result, itself a success, whose only output is the parameter \<open>output\<close> with
  the value \<open>"Hello, World!"\<close>.
\<close>

theorem dummy_round_trip:
  assumes "wf_inputs wdef = []" and "wf_steps wdef = [s]" and "ws_type s = ''dummy''"
    and "ws_inputs s = [(''input'', PStr ''Hello, World!'')]"
  shows "\<exists>wdef' run_inputs'.
           run F (registered_steps F llm_live) wdef run_inputs False =
             Some (Inr \<lparr> rr_status = SUCCESS,
                         rr_result =
                           [\<lparr> sr_step_name = ws_name s, sr_step_type = ''DummyStep'',
                              sr_status = STEP_SUCCESS, sr_status_reason = None,
                              sr_inputs =
                                [(new_Parameter ''input'' STRING)\<lparr>p_value := PStr ''Hello, World!''\<rparr>],
                              sr_outputs =
                                [(new_Parameter ''output'' STRING)\<lparr>p_value := PStr ''Hello, World!''\<rparr>] \<rparr>] \<rparr>,
                   wdef', run_inputs')"
  using assms
  by (simp add: model_eval Let_def fill_loop.simps split: option.splits)

theorem dummy_round_trip_witness:
  "wf_inputs hello_workflow = [] \<and>
   wf_steps hello_workflow = [hd (wf_steps hello_workflow)] \<and>
   ws_type (hd (wf_steps hello_workflow)) = ''dummy'' \<and>
   ws_inputs (hd (wf_steps hello_workflow)) = [(''input'', PStr ''Hello, World!'')] \<and>
   (\<exists>wdef' run_inputs'.
      run example_builtins (registered_steps example_builtins no_llm) hello_workflow None False =
        Some (Inr \<lparr> rr_status = SUCCESS,
                    rr_result =
                      [\<lparr> sr_step_name = ''example step'', sr_step_type = ''DummyStep'',
                         sr_status = STEP_SUCCESS, sr_status_reason = None,
                         sr_inputs =
                           [(new_Parameter ''input'' STRING)\<lparr>p_value := PStr ''Hello, World!''\<rparr>],
                         sr_outputs =
                           [(new_Parameter ''output'' STRING)\<lparr>p_value := PStr ''Hello, World!''\<rparr>] \<rparr>] \<rparr>,
              wdef', run_inputs'))"
proof -
  have h: "wf_inputs hello_workflow = []"
    "wf_steps hello_workflow = [hd (wf_steps hello_workflow)]"
    "ws_type (hd (wf_steps hello_workflow)) = ''dummy''"
    "ws_inputs (hd (wf_steps hello_workflow)) = [(''input'', PStr ''Hello, World!'')]"
    "ws_name (hd (wf_steps hello_workflow)) = ''example step''"
    by (simp_all add: hello_workflow_def)
  from dummy_round_trip [OF h(1-4), of example_builtins no_llm None] h show ?thesis
    by simp
qed







text \<open>
  C4. Whenever \<open>run\<close> returns a WorkflowRunResult, its status is FAILURE if and only
  if one of the step results it lists has status FAILURE, and SUCCESS otherwise. The list
  is either the single synthetic \<open>input\<close> result of a failed input binding, or holds
  one result per declared step, in declaration order (the i-th result carries the name
  of the i-th step, every declared type being a registered one).
\<close>

theorem aggregate_status:
  assumes "run F registry wdef run_inputs dry_run = Some (Inr res, wdef', run_inputs')"
  shows "(rr_status res = FAILURE \<longleftrightarrow> (\<exists>r \<in> set (rr_result res). sr_status r = STEP_FAILURE)) \<and>
         (rr_status res = SUCCESS \<longleftrightarrow> \<not> (\<exists>r \<in> set (rr_result res). sr_status r = STEP_FAILURE)) \<and>
         ((\<exists>input_errors. input_errors \<noteq> [] \<and> res = input_failure input_errors) \<or>
          (length (rr_result res) = length (wf_steps wdef) \<and>
           (list_all (validate_type registry) (wf_steps wdef) \<longrightarrow>
              map sr_step_name (rr_result res) = map ws_name (wf_steps wdef))))"
proof -
  let ?ri0 = "case run_inputs of None \<Rightarrow> [] | Some d \<Rightarrow> d"
  obtain se ri1 where seed:
    "(if dry_run then seed_dry_run (wf_inputs wdef) ?ri0 else (None, ?ri0)) = (se, ri1)"
    by (cases "if dry_run then seed_dry_run (wf_inputs wdef) ?ri0 else (None, ?ri0)") auto
  obtain be params errs where bind: "bind_inputs F (wf_inputs wdef) ri1 = (be, params, errs)"
    by (cases "bind_inputs F (wf_inputs wdef) ri1") auto
  from assms seed bind have none: "se = None" "be = None"
    by (auto simp: run_def Let_def split: option.splits if_splits)
  show ?thesis
  proof (cases "errs = []")
    case False
    with assms seed bind none have "res = input_failure errs"
      by (auto simp: run_def Let_def split: if_splits)
    with False show ?thesis by (auto simp: input_failure_def)
  next
    case True
    with assms seed bind none obtain result status steps' context' where
      rs: "run_steps F registry dry_run (wf_steps wdef) (input_context params) [] SUCCESS
             = Some (Inr (result, status), steps', context')"
      and res: "res = \<lparr> rr_status = status, rr_result = result \<rparr>"
      by (auto simp: run_def Let_def split: option.splits sum.splits prod.splits if_splits)
    from run_steps_results [OF rs] res show ?thesis by auto
  qed
qed

theorem aggregate_status_witness:
  "list_all (validate_type (registered_steps example_builtins no_llm)) (wf_steps readonly_workflow) \<and>
   (\<exists>res wdef' run_inputs'.
      run example_builtins (registered_steps example_builtins no_llm) readonly_workflow None False
        = Some (Inr res, wdef', run_inputs') \<and>
      rr_status res = SUCCESS \<and> map sr_step_name (rr_result res) = [''echo''] \<and>
      \<not> list_ex (\<lambda>r. sr_status r = STEP_FAILURE) (rr_result res))"
proof -
  let ?reg = "registered_steps example_builtins no_llm"
  have v: "list_all (validate_type ?reg) (wf_steps readonly_workflow)"
    by (simp add: readonly_workflow_def validate_type_def model_eval)
  have "\<exists>res wdef' run_inputs'.
      run example_builtins ?reg readonly_workflow None False = Some (Inr res, wdef', run_inputs') \<and>
      rr_status res = SUCCESS"
    by (simp add: readonly_workflow_def greeting_input_def model_eval Let_def fill_loop.simps
          value_validation_def)
  then obtain res wdef' run_inputs' where
    r: "run example_builtins ?reg readonly_workflow None False = Some (Inr res, wdef', run_inputs')"
    and s: "rr_status res = SUCCESS" by blast
  note T = aggregate_status [OF r]
  from T s have nf: "\<not> list_ex (\<lambda>r. sr_status r = STEP_FAILURE) (rr_result res)"
    by (simp add: list_ex_iff)
  from T s v have nm: "map sr_step_name (rr_result res) = [''echo'']"
    by (auto simp: input_failure_def readonly_workflow_def)
  have "\<exists>res wdef' run_inputs'.
      run example_builtins ?reg readonly_workflow None False = Some (Inr res, wdef', run_inputs') \<and>
      rr_status res = SUCCESS \<and> map sr_step_name (rr_result res) = [''echo''] \<and>
      \<not> list_ex (\<lambda>r. sr_status r = STEP_FAILURE) (rr_result res)"
    apply (rule exI [of _ res], rule exI [of _ wdef'], rule exI [of _ run_inputs'])
    using r s nf nm by simp
  with v show ?thesis by simp
qed

lemma set_value_forget: "set_value F (p\<lparr>p_value := y\<rparr>) x = set_value F p x"
  by (simp add: set_value_def assign_def)

lemma seed_dry_run_unbound:
  "seed_dry_run (map unbound_input ps) ri = seed_dry_run ps ri"
  by (induction ps arbitrary: ri) (auto simp: get_dry_run_value_def unbound_input_def)

lemma bind_inputs_unbound:
  assumes "bind_inputs F (map unbound_input ps) ri = (e2, ps2, errs2)"
    and "bind_inputs F ps ri = (e, ps', errs)"
  shows "e2 = e \<and> errs2 = errs \<and> (e = None \<longrightarrow> ps2 = ps')"
  using assms
proof (induction ps arbitrary: e2 ps2 errs2 e ps' errs)
  case Nil
  then show ?case by simp
next
  case (Cons p ps)
  let ?x = "get_or ri (p_name p) (p_default p)"
  have sv: "set_value F (unbound_input p) (get_or ri (p_name (unbound_input p)) (p_default (unbound_input p)))
            = set_value F p ?x"
    by (simp add: unbound_input_def set_value_forget)
  show ?case
  proof (cases "set_value F p ?x")
    case (Inl err)
    with Cons.prems sv show ?thesis by auto
  next
    case (Inr p')
    show ?thesis
    proof (cases "value_validation F p'")
      case (Inl err)
      with Cons.prems sv Inr show ?thesis by (auto simp: Let_def)
    next
      case vv: (Inr errors)
      obtain a b c where r1: "bind_inputs F (map unbound_input ps) ri = (a, b, c)"
        by (cases "bind_inputs F (map unbound_input ps) ri") auto
      obtain a' b' c' where r2: "bind_inputs F ps ri = (a', b', c')"
        by (cases "bind_inputs F ps ri") auto
      from Cons.IH [OF r1 r2] have "a = a' \<and> c = c' \<and> (a' = None \<longrightarrow> b = b')" .
      with Cons.prems sv Inr vv r1 r2 show ?thesis by (auto simp: Let_def)
    qed
  qed
qed

lemma bind_inputs_keeps:
  "bind_inputs F ps ri = (e, ps', errs) \<Longrightarrow> map unbound_input ps' = map unbound_input ps"
proof (induction ps arbitrary: e ps' errs)
  case Nil
  then show ?case by simp
next
  case (Cons p ps)
  let ?x = "get_or ri (p_name p) (p_default p)"
  show ?case
  proof (cases "set_value F p ?x")
    case (Inl err)
    with Cons.prems show ?thesis by (auto simp: unbound_input_def assign_def)
  next
    case (Inr p')
    from set_value_result [OF Inr] have u: "unbound_input p' = unbound_input p"
      by (simp add: unbound_input_def assign_def)
    show ?thesis
    proof (cases "value_validation F p'")
      case (Inl err)
      with Cons.prems Inr u show ?thesis by (auto simp: Let_def)
    next
      case vv: (Inr errors)
      obtain a b c where r: "bind_inputs F ps ri = (a, b, c)"
        by (cases "bind_inputs F ps ri") auto
      from Cons.IH [OF r] Cons.prems Inr vv r u show ?thesis by (auto simp: Let_def)
    qed
  qed
qed

lemma input_context_cong:
  "input_context ps = fold (\<lambda>p d. dict_set d (''input.'' @ p_name p) (p_value p)) ps []"
  by (simp add: input_context_def)

lemma init_input_unbound:
  assumes "validate_type registry s"
  shows "fst (init_input F registry (unbound_step s)) = fst (init_input F registry s) \<and>
         (fst (init_input F registry s) = None \<longrightarrow>
            snd (init_input F registry (unbound_step s)) = snd (init_input F registry s))"
  using assms
  by (auto simp: init_input_def unbound_step_def validate_type_def Let_def
        split: option.splits sum.splits)

lemma init_input_keeps:
  "init_input F registry s = (e, s1) \<Longrightarrow> unbound_step s1 = unbound_step s"
  by (auto simp: init_input_def unbound_step_def Let_def split: option.splits sum.splits)

lemma WorkflowStep_run_keeps:
  "WorkflowStep_run F s ctx dry_run = Some (x, s', ctx') \<Longrightarrow> unbound_step s' = unbound_step s"
  by (auto simp: WorkflowStep_run_def unbound_step_def split: option.splits prod.splits)

lemma run_steps_unbound:
  assumes "list_all (validate_type registry) steps"
  shows "map_option fst (run_steps F registry dry_run (map unbound_step steps) ctx result status)
           = map_option fst (run_steps F registry dry_run steps ctx result status)"
  using assms
proof (induction steps arbitrary: ctx result status)
  case Nil
  then show ?case by simp
next
  case (Cons s steps)
  from Cons.prems have v: "validate_type registry s" and vs: "list_all (validate_type registry) steps"
    by simp_all
  obtain e s1 where i: "init_input F registry s = (e, s1)"
    by (cases "init_input F registry s") auto
  obtain e' s1' where i': "init_input F registry (unbound_step s) = (e', s1')"
    by (cases "init_input F registry (unbound_step s)") auto
  from init_input_unbound [OF v, of F] i i' have ee: "e' = e" "e = None \<longrightarrow> s1' = s1" by auto
  show ?case
  proof (cases e)
    case (Some err)
    with i i' ee show ?thesis by simp
  next
    case None
    with ee have s1: "s1' = s1" by simp
    show ?thesis
    proof (cases "WorkflowStep_run F s1 ctx dry_run")
      case n: None
      with i i' ee None s1 show ?thesis by simp
    next
      case (Some t)
      obtain x s2 c1 where t: "t = (x, s2, c1)" by (cases t) auto
      show ?thesis
      proof (cases x)
        case (Inl err)
        with i i' ee None s1 Some t show ?thesis by simp
      next
        case (Inr r)
        define st where "st = (if sr_status r = STEP_FAILURE then FAILURE else status)"
        have ih: "map_option fst (run_steps F registry dry_run (map unbound_step steps) c1 (result @ [r]) st)
                  = map_option fst (run_steps F registry dry_run steps c1 (result @ [r]) st)"
          by (rule Cons.IH [OF vs])
        have l: "run_steps F registry dry_run (map unbound_step (s # steps)) ctx result status =
                 (case run_steps F registry dry_run (map unbound_step steps) c1 (result @ [r]) st of
                    None \<Rightarrow> None
                  | Some (out, steps', c) \<Rightarrow> Some (out, s2 # steps', c))"
          using i' ee None s1 Some t Inr by (simp add: st_def)
        have r: "run_steps F registry dry_run (s # steps) ctx result status =
                 (case run_steps F registry dry_run steps c1 (result @ [r]) st of
                    None \<Rightarrow> None
                  | Some (out, steps', c) \<Rightarrow> Some (out, s2 # steps', c))"
          using i None Some t Inr by (simp add: st_def)
        show ?thesis unfolding l r using ih
          by (cases "run_steps F registry dry_run (map unbound_step steps) c1 (result @ [r]) st";
              cases "run_steps F registry dry_run steps c1 (result @ [r]) st") auto
      qed
    qed
  qed
qed

lemma run_steps_keeps:
  "run_steps F registry dry_run steps ctx result status = Some (out, steps', ctx') \<Longrightarrow>
     map unbound_step steps' = map unbound_step steps"
proof (induction steps arbitrary: ctx result status out steps' ctx')
  case Nil
  then show ?case by simp
next
  case (Cons s steps)
  obtain e s1 where i: "init_input F registry s = (e, s1)"
    by (cases "init_input F registry s") auto
  note k1 = init_input_keeps [OF i]
  show ?case
  proof (cases e)
    case (Some err)
    with Cons.prems i k1 show ?thesis by auto
  next
    case None
    from Cons.prems i None obtain x s2 c1 where
      w: "WorkflowStep_run F s1 ctx dry_run = Some (x, s2, c1)"
      by (auto split: option.splits)
    note k2 = WorkflowStep_run_keeps [OF w]
    show ?thesis
    proof (cases x)
      case (Inl err)
      with Cons.prems i None w k1 k2 show ?thesis by auto
    next
      case (Inr r)
      with Cons.prems i None w obtain rest' where
        rec: "run_steps F registry dry_run steps c1 (result @ [r])
                (if sr_status r = STEP_FAILURE then FAILURE else status) = Some (out, rest', ctx')"
        and st: "steps' = s2 # rest'"
        by (auto split: option.splits)
      from Cons.IH [OF rec] st k1 k2 show ?thesis by simp
    qed
  qed
qed

lemma validate_type_unbound: "validate_type registry (unbound_step s) = validate_type registry s"
  by (simp add: validate_type_def unbound_step_def)

lemma run_unbound:
  assumes "list_all (validate_type registry) (wf_steps wdef)"
  shows "map_option fst (run F registry (unbound wdef) run_inputs dry_run)
           = map_option fst (run F registry wdef run_inputs dry_run)"
proof -
  let ?ri0 = "case run_inputs of None \<Rightarrow> [] | Some d \<Rightarrow> d"
  obtain se ri1 where seed:
    "(if dry_run then seed_dry_run (wf_inputs wdef) ?ri0 else (None, ?ri0)) = (se, ri1)"
    by (cases "if dry_run then seed_dry_run (wf_inputs wdef) ?ri0 else (None, ?ri0)") auto
  have wi: "wf_inputs (unbound wdef) = map unbound_input (wf_inputs wdef)"
    and ws: "wf_steps (unbound wdef) = map unbound_step (wf_steps wdef)"
    by (simp_all add: unbound_def)
  from seed have seed': "(if dry_run then seed_dry_run (wf_inputs (unbound wdef)) ?ri0
                     else (None, ?ri0)) = (se, ri1)"
    by (auto simp: wi seed_dry_run_unbound split: if_splits)
  obtain e ps errs where b: "bind_inputs F (wf_inputs wdef) ri1 = (e, ps, errs)"
    by (cases "bind_inputs F (wf_inputs wdef) ri1") auto
  obtain e2 ps2 errs2 where b2: "bind_inputs F (map unbound_input (wf_inputs wdef)) ri1 = (e2, ps2, errs2)"
    by (cases "bind_inputs F (map unbound_input (wf_inputs wdef)) ri1") auto
  from bind_inputs_unbound [OF b2 b] have eq: "e2 = e" "errs2 = errs" "e = None \<longrightarrow> ps2 = ps"
    by auto
  note U = run_unfold [OF seed', of F registry] and W = run_unfold [OF seed, of F registry]
  show ?thesis
  proof (cases se)
    case (Some err)
    then show ?thesis by (simp add: U W)
  next
    case None
    show ?thesis
    proof (cases e)
      case (Some err)
      with None b b2 eq show ?thesis by (simp add: U W wi)
    next
      case n: None
      with eq have ps: "ps2 = ps" by simp
      note S = run_steps_unbound [OF assms, of F dry_run "input_context ps" "[]" SUCCESS]
      show ?thesis
      proof (cases "errs = []")
        case False
        with None n b b2 eq ps show ?thesis by (simp add: U W wi)
      next
        case True
        show ?thesis
        proof (cases "run_steps F registry dry_run (wf_steps wdef) (input_context ps) [] SUCCESS")
          case rn: None
          with S have "run_steps F registry dry_run (map unbound_step (wf_steps wdef))
                         (input_context ps) [] SUCCESS = None" by simp
          with rn None n b b2 eq ps True show ?thesis by (simp add: U W wi ws)
        next
          case (Some t)
          obtain x steps' c where t: "t = (x, steps', c)" by (cases t) auto
          from S Some t obtain steps2 c2 where
            "run_steps F registry dry_run (map unbound_step (wf_steps wdef))
                         (input_context ps) [] SUCCESS = Some (x, steps2, c2)"
            by (cases "run_steps F registry dry_run (map unbound_step (wf_steps wdef))
                         (input_context ps) [] SUCCESS") auto
          with Some t None n b b2 eq ps True show ?thesis
            by (cases x) (auto simp: U W wi ws)
        qed
      qed
    qed
  qed
qed

lemma run_keeps:
  assumes "run F registry wdef run_inputs dry_run = Some (out, wdef1, run_inputs1)"
  shows "unbound wdef1 = unbound wdef"
proof -
  let ?ri0 = "case run_inputs of None \<Rightarrow> [] | Some d \<Rightarrow> d"
  obtain se ri1 where seed:
    "(if dry_run then seed_dry_run (wf_inputs wdef) ?ri0 else (None, ?ri0)) = (se, ri1)"
    by (cases "if dry_run then seed_dry_run (wf_inputs wdef) ?ri0 else (None, ?ri0)") auto
  obtain e ps errs where b: "bind_inputs F (wf_inputs wdef) ri1 = (e, ps, errs)"
    by (cases "bind_inputs F (wf_inputs wdef) ri1") auto
  note kb = bind_inputs_keeps [OF b]
  note W = run_unfold [OF seed, of F registry]
  show ?thesis
  proof (cases se)
    case (Some err)
    with assms show ?thesis by (auto simp: W)
  next
    case None
    show ?thesis
    proof (cases e)
      case (Some err)
      with assms None b kb show ?thesis by (auto simp: W unbound_def)
    next
      case n: None
      show ?thesis
      proof (cases "errs = []")
        case False
        with assms None b n kb show ?thesis by (auto simp: W unbound_def)
      next
        case True
        with assms None b n obtain x steps' c where
          rs: "run_steps F registry dry_run (wf_steps wdef) (input_context ps) [] SUCCESS
                 = Some (x, steps', c)"
          and w1: "wdef1 = wdef\<lparr>wf_inputs := ps, wf_steps := steps'\<rparr>"
          by (auto simp: W split: option.splits sum.splits prod.splits)
        from run_steps_keeps [OF rs] kb w1 show ?thesis by (simp add: unbound_def)
      qed
    qed
  qed
qed

lemma seed_dry_run_error: "fst (seed_dry_run ps ri) = fst (seed_dry_run ps ri')"
  by (induction ps arbitrary: ri ri') (auto split: sum.splits)

lemma seed_dry_run_outside:
  "k \<notin> p_name ` set ps \<Longrightarrow> dict_get (snd (seed_dry_run ps ri)) k = dict_get ri k"
  by (induction ps arbitrary: ri) (auto simp: dict_get_set split: sum.splits)

lemma seed_dry_run_inside:
  assumes "fst (seed_dry_run ps ri) = None" and "p \<in> set ps"
  shows "dict_get (snd (seed_dry_run ps ri)) (p_name p)
           = dict_get (snd (seed_dry_run ps ri')) (p_name p)"
  using assms
proof (induction ps arbitrary: ri ri' p)
  case Nil
  then show ?case by simp
next
  case (Cons q qs)
  from Cons.prems(1) obtain x where x: "get_dry_run_value q = Inr x"
    by (cases "get_dry_run_value q") auto
  with Cons.prems(1) have f: "fst (seed_dry_run qs (dict_set ri (p_name q) x)) = None" by simp
  show ?case
  proof (cases "p_name p \<in> p_name ` set qs")
    case True
    then obtain p' where p': "p' \<in> set qs" "p_name p' = p_name p" by auto
    from Cons.IH [OF f p'(1), of "dict_set ri' (p_name q) x"] p'(2) x show ?thesis by simp
  next
    case False
    with Cons.prems(2) have pq: "p_name p = p_name q" by auto
    from False x show ?thesis by (simp add: seed_dry_run_outside dict_get_set pq)
  qed
qed

lemma bind_inputs_cong:
  "\<forall>p \<in> set ps. dict_get ri (p_name p) = dict_get ri' (p_name p) \<Longrightarrow>
     bind_inputs F ps ri = bind_inputs F ps ri'"
proof (induction ps)
  case Nil
  then show ?case by simp
next
  case (Cons a ps)
  from Cons.prems have g: "get_or ri (p_name a) (p_default a) = get_or ri' (p_name a) (p_default a)"
    by (simp add: get_or_def)
  from Cons have r: "bind_inputs F ps ri = bind_inputs F ps ri'" by simp
  show ?case unfolding bind_inputs.simps g r by (rule refl)
qed

lemma run_inputs_left:
  assumes "run F registry wdef run_inputs dry_run = Some (out, wdef1, run_inputs1)"
  shows "run_inputs1 = snd (if dry_run
           then seed_dry_run (wf_inputs wdef) (case run_inputs of None \<Rightarrow> [] | Some d \<Rightarrow> d)
           else (None, case run_inputs of None \<Rightarrow> [] | Some d \<Rightarrow> d))"
proof -
  let ?ri0 = "case run_inputs of None \<Rightarrow> [] | Some d \<Rightarrow> d"
  obtain se ri1 where seed:
    "(if dry_run then seed_dry_run (wf_inputs wdef) ?ri0 else (None, ?ri0)) = (se, ri1)"
    by (cases "if dry_run then seed_dry_run (wf_inputs wdef) ?ri0 else (None, ?ri0)") auto
  from assms have "run_inputs1 = ri1"
    unfolding run_unfold [OF seed]
    by (auto split: option.splits prod.splits sum.splits if_splits)
  with seed show ?thesis by simp
qed

lemma run_outcome:
  assumes "(if dry_run then seed_dry_run (wf_inputs self) (case run_inputs of None \<Rightarrow> [] | Some d \<Rightarrow> d)
            else (None, case run_inputs of None \<Rightarrow> [] | Some d \<Rightarrow> d)) = (se, ri1)"
  shows "map_option fst (run F registry self run_inputs dry_run) =
     (case se of
        Some e \<Rightarrow> Some (Inl e)
      | None \<Rightarrow>
          (case bind_inputs F (wf_inputs self) ri1 of
             (Some e, params, input_errors) \<Rightarrow> Some (Inl e)
           | (None, params, input_errors) \<Rightarrow>
               if input_errors \<noteq> [] then Some (Inr (input_failure input_errors))
               else
                 (case run_steps F registry dry_run (wf_steps self) (input_context params) [] SUCCESS of
                    None \<Rightarrow> None
                  | Some (Inl e, steps, c) \<Rightarrow> Some (Inl e)
                  | Some (Inr (result, status), steps, c) \<Rightarrow>
                      Some (Inr \<lparr> rr_status = status, rr_result = result \<rparr>))))"
  unfolding run_unfold [OF assms]
  by (auto split: option.splits prod.splits sum.splits)

lemma run_dry_again:
  assumes "run F registry wdef run_inputs True = Some (out, wdef1, run_inputs1)"
  shows "map_option fst (run F registry wdef (Some run_inputs1) True) = Some out"
proof -
  let ?ri0 = "case run_inputs of None \<Rightarrow> [] | Some d \<Rightarrow> d"
  let ?ps = "wf_inputs wdef"
  obtain se ri1 where seed: "seed_dry_run ?ps ?ri0 = (se, ri1)"
    by (cases "seed_dry_run ?ps ?ri0") auto
  from run_inputs_left [OF assms] seed have r1: "run_inputs1 = ri1" by simp
  obtain se2 ri2 where seed2: "seed_dry_run ?ps ri1 = (se2, ri2)"
    by (cases "seed_dry_run ?ps ri1") auto
  from seed_dry_run_error [of ?ps ?ri0 ri1] seed seed2 have se: "se2 = se" by simp
  have s1: "(if True then seed_dry_run ?ps ?ri0 else (None, ?ri0)) = (se, ri1)"
    using seed by simp
  have s2: "(if True then seed_dry_run ?ps (case Some ri1 of None \<Rightarrow> [] | Some d \<Rightarrow> d)
             else (None, case Some ri1 of None \<Rightarrow> [] | Some d \<Rightarrow> d)) = (se, ri2)"
    using seed2 se by simp
  have b: "se = None \<Longrightarrow> bind_inputs F ?ps ri2 = bind_inputs F ?ps ri1"
  proof (rule bind_inputs_cong, rule ballI)
    fix p assume n: "se = None" and p: "p \<in> set ?ps"
    from seed2 se n have "fst (seed_dry_run ?ps ri1) = None" by simp
    from seed_dry_run_inside [OF this p, of ?ri0] seed seed2
    show "dict_get ri2 (p_name p) = dict_get ri1 (p_name p)" by simp
  qed
  have "map_option fst (run F registry wdef (Some ri1) True)
          = map_option fst (run F registry wdef run_inputs True)"
    unfolding run_outcome [OF s1] run_outcome [OF s2]
    by (cases se) (simp_all add: b)
  with assms r1 show ?thesis by simp
qed

text \<open>
  C7 (as amended). After a call of \<open>run\<close> has ended, a second call on the same
  definition with run inputs of the same content and the same mode gives the same
  outcome, step outputs included; and in either mode the second call gives what the
  definition gives with no value bound to an input and no instance bound to a step:
  nothing the first call bound in the definition is visible, because \<open>run\<close> binds
  every input anew and \<open>init_input\<close> builds a fresh instance for every step before
  it runs. The dictionary of run inputs is another matter: a live run leaves it as it
  was, so that handing it to a second call is handing the same inputs, and a dry run
  leaves its placeholders in it, so that a second dry run on it repeats the first while
  a live run on it binds the placeholders. The step types are registered ones, as the
  type validator ensures, and \<open>process\<close> is a function of the bound instance.
\<close>

theorem rerun_is_independent:
  assumes "list_all (validate_type registry) (wf_steps wdef)"
    and "run F registry wdef run_inputs dry_run = Some (out, wdef1, run_inputs1)"
  shows "map_option fst (run F registry wdef1 run_inputs dry_run) = Some out \<and>
         map_option fst (run F registry wdef1 run_inputs second_mode)
           = map_option fst (run F registry (unbound wdef) run_inputs second_mode) \<and>
         map_option fst (run F registry wdef1 run_inputs second_mode)
           = map_option fst (run F registry wdef run_inputs second_mode) \<and>
         (\<not> dry_run \<longrightarrow>
            run_inputs1 = (case run_inputs of None \<Rightarrow> [] | Some d \<Rightarrow> d) \<and>
            map_option fst (run F registry wdef1 (Some run_inputs1) second_mode)
              = map_option fst (run F registry wdef run_inputs second_mode)) \<and>
         (dry_run \<longrightarrow>
            run_inputs1 = snd (seed_dry_run (wf_inputs wdef)
                                 (case run_inputs of None \<Rightarrow> [] | Some d \<Rightarrow> d)) \<and>
            map_option fst (run F registry wdef1 (Some run_inputs1) True) = Some out)"
proof -
  let ?ri0 = "case run_inputs of None \<Rightarrow> [] | Some d \<Rightarrow> d"
  from run_keeps [OF assms(2)] have k: "unbound wdef1 = unbound wdef" .
  then have "map unbound_step (wf_steps wdef1) = map unbound_step (wf_steps wdef)"
    by (simp add: unbound_def) (metis WorkflowDef.select_convs(4) WorkflowDef.surjective
          WorkflowDef.update_convs(3) WorkflowDef.update_convs(4))
  then have "list_all (validate_type registry) (map unbound_step (wf_steps wdef1))"
    using assms(1) by (simp add: list_all_iff validate_type_unbound)
  then have v1: "list_all (validate_type registry) (wf_steps wdef1)"
    by (simp add: list_all_iff validate_type_unbound)
  have a: "map_option fst (run F registry wdef1 ri d)
             = map_option fst (run F registry (unbound wdef) ri d)" for ri d
    using run_unbound [OF v1, of F ri d] k by simp
  have b: "map_option fst (run F registry (unbound wdef) ri d)
             = map_option fst (run F registry wdef ri d)" for ri d
    by (rule run_unbound [OF assms(1)])
  have c: "map_option fst (run F registry wdef1 ri d) = map_option fst (run F registry wdef ri d)"
    for ri d using a b by simp
  have live: "run_inputs1 = ?ri0 \<and>
      map_option fst (run F registry wdef1 (Some run_inputs1) second_mode)
        = map_option fst (run F registry wdef run_inputs second_mode)" if "\<not> dry_run"
  proof -
    from run_inputs_left [OF assms(2)] that have r: "run_inputs1 = ?ri0" by simp
    have "run F registry wdef (Some ?ri0) second_mode = run F registry wdef run_inputs second_mode"
      by (cases run_inputs) (simp_all add: run_def)
    with r c [of "Some run_inputs1" second_mode] show ?thesis by simp
  qed
  have dry: "run_inputs1 = snd (seed_dry_run (wf_inputs wdef) ?ri0) \<and>
      map_option fst (run F registry wdef1 (Some run_inputs1) True) = Some out" if "dry_run"
  proof -
    from run_inputs_left [OF assms(2)] that
    have r: "run_inputs1 = snd (seed_dry_run (wf_inputs wdef) ?ri0)" by simp
    from assms(2) that have "run F registry wdef run_inputs True = Some (out, wdef1, run_inputs1)"
      by simp
    from run_dry_again [OF this] c [of "Some run_inputs1" True] r show ?thesis by simp
  qed
  have first: "map_option fst (run F registry wdef1 run_inputs dry_run) = Some out"
    using c [of run_inputs dry_run] assms(2) by simp
  have l: "\<not> dry_run \<longrightarrow>
            run_inputs1 = ?ri0 \<and>
            map_option fst (run F registry wdef1 (Some run_inputs1) second_mode)
              = map_option fst (run F registry wdef run_inputs second_mode)"
    using live by (rule impI)
  have d: "dry_run \<longrightarrow>
            run_inputs1 = snd (seed_dry_run (wf_inputs wdef) ?ri0) \<and>
            map_option fst (run F registry wdef1 (Some run_inputs1) True) = Some out"
    using dry by (rule impI)
  from first a [of run_inputs second_mode] c [of run_inputs second_mode] l d
  show ?thesis by (intro conjI) assumption+
qed

theorem rerun_is_independent_witness:
  "list_all (validate_type (registered_steps example_builtins no_llm)) (wf_steps readonly_workflow) \<and>
   (\<exists>out wdef1 run_inputs1.
      run example_builtins (registered_steps example_builtins no_llm) readonly_workflow
          (Some [(''greeting'', PStr ''hello'')]) True = Some (out, wdef1, run_inputs1) \<and>
      map_option fst
        (run example_builtins (registered_steps example_builtins no_llm) wdef1
           (Some [(''greeting'', PStr ''hello'')]) True) = Some out \<and>
      map_option fst
        (run example_builtins (registered_steps example_builtins no_llm) wdef1
           (Some [(''greeting'', PStr ''hello'')]) False)
        = Some (Inr \<lparr> rr_status = SUCCESS,
                      rr_result =
                        [\<lparr> sr_step_name = ''echo'', sr_step_type = ''DummyStep'',
                           sr_status = STEP_SUCCESS, sr_status_reason = None,
                           sr_inputs = [(new_Parameter ''input'' STRING)\<lparr>p_value := PStr ''hello''\<rparr>],
                           sr_outputs = [(new_Parameter ''output'' STRING)\<lparr>p_value := PStr ''hello''\<rparr>] \<rparr>] \<rparr>) \<and>
      run_inputs1 = [(''greeting'', PStr ''dummy'')] \<and>
      map_option fst
        (run example_builtins (registered_steps example_builtins no_llm) wdef1
           (Some run_inputs1) True) = Some out) \<and>
   (\<exists>out wdef1 run_inputs1.
      run example_builtins (registered_steps example_builtins no_llm) readonly_workflow
          (Some [(''greeting'', PStr ''hello'')]) False = Some (out, wdef1, run_inputs1) \<and>
      run_inputs1 = [(''greeting'', PStr ''hello'')] \<and>
      map_option fst
        (run example_builtins (registered_steps example_builtins no_llm) wdef1
           (Some run_inputs1) False)
        = Some (Inr \<lparr> rr_status = SUCCESS,
                      rr_result =
                        [\<lparr> sr_step_name = ''echo'', sr_step_type = ''DummyStep'',
                           sr_status = STEP_SUCCESS, sr_status_reason = None,
                           sr_inputs = [(new_Parameter ''input'' STRING)\<lparr>p_value := PStr ''hello''\<rparr>],
                           sr_outputs = [(new_Parameter ''output'' STRING)\<lparr>p_value := PStr ''hello''\<rparr>] \<rparr>] \<rparr>))"
proof -
  let ?F = example_builtins
  let ?reg = "registered_steps example_builtins no_llm"
  let ?ri = "Some [(''greeting'', PStr ''hello'')]"
  let ?hello = "Inr \<lparr> rr_status = SUCCESS,
                      rr_result =
                        [\<lparr> sr_step_name = ''echo'', sr_step_type = ''DummyStep'',
                           sr_status = STEP_SUCCESS, sr_status_reason = None,
                           sr_inputs = [(new_Parameter ''input'' STRING)\<lparr>p_value := PStr ''hello''\<rparr>],
                           sr_outputs = [(new_Parameter ''output'' STRING)\<lparr>p_value := PStr ''hello''\<rparr>] \<rparr>] \<rparr>"
  have v: "list_all (validate_type ?reg) (wf_steps readonly_workflow)"
    by (simp add: readonly_workflow_def validate_type_def model_eval)
  have "\<exists>r. run ?F ?reg readonly_workflow ?ri True = Some r"
    by (simp add: readonly_workflow_def greeting_input_def model_eval Let_def fill_loop.simps
          get_dry_run_value_def value_validation_def)
  then obtain out wdef1 run_inputs1 where
    r: "run ?F ?reg readonly_workflow ?ri True = Some (out, wdef1, run_inputs1)"
    by (metis prod_cases3)
  note T = rerun_is_independent [OF v r, of False]
  have live: "map_option fst (run ?F ?reg readonly_workflow ?ri False) = Some ?hello"
    by (simp add: readonly_workflow_def greeting_input_def model_eval Let_def fill_loop.simps
          value_validation_def)
  have seeded: "snd (seed_dry_run (wf_inputs readonly_workflow)
                       (case ?ri of None \<Rightarrow> [] | Some d \<Rightarrow> d)) = [(''greeting'', PStr ''dummy'')]"
    by (simp add: readonly_workflow_def greeting_input_def get_dry_run_value_def)
  from T [THEN conjunct2, THEN conjunct2, THEN conjunct2, THEN conjunct2]
  have t5: "run_inputs1 = snd (seed_dry_run (wf_inputs readonly_workflow)
                                 (case ?ri of None \<Rightarrow> [] | Some d \<Rightarrow> d)) \<and>
            map_option fst (run ?F ?reg wdef1 (Some run_inputs1) True) = Some out"
    by (rule mp) simp
  have A: "\<exists>out wdef1 run_inputs1.
      run ?F ?reg readonly_workflow ?ri True = Some (out, wdef1, run_inputs1) \<and>
      map_option fst (run ?F ?reg wdef1 ?ri True) = Some out \<and>
      map_option fst (run ?F ?reg wdef1 ?ri False) = Some ?hello \<and>
      run_inputs1 = [(''greeting'', PStr ''dummy'')] \<and>
      map_option fst (run ?F ?reg wdef1 (Some run_inputs1) True) = Some out"
    apply (rule exI [of _ out], rule exI [of _ wdef1], rule exI [of _ run_inputs1])
    apply (intro conjI)
        apply (rule r)
       apply (rule T [THEN conjunct1])
      apply (rule trans [OF T [THEN conjunct2, THEN conjunct2, THEN conjunct1] live])
     apply (rule trans [OF t5 [THEN conjunct1] seeded])
    apply (rule t5 [THEN conjunct2])
    done
  have "\<exists>r. run ?F ?reg readonly_workflow ?ri False = Some r"
    by (simp add: readonly_workflow_def greeting_input_def model_eval Let_def fill_loop.simps
          value_validation_def)
  then obtain out2 wdef2 run_inputs2 where
    r2: "run ?F ?reg readonly_workflow ?ri False = Some (out2, wdef2, run_inputs2)"
    by (metis prod_cases3)
  note T2 = rerun_is_independent [OF v r2, of False]
  from T2 [THEN conjunct2, THEN conjunct2, THEN conjunct2, THEN conjunct1]
  have t4: "run_inputs2 = (case ?ri of None \<Rightarrow> [] | Some d \<Rightarrow> d) \<and>
            map_option fst (run ?F ?reg wdef2 (Some run_inputs2) False)
              = map_option fst (run ?F ?reg readonly_workflow ?ri False)"
    by (rule mp) simp
  have same: "(case ?ri of None \<Rightarrow> [] | Some d \<Rightarrow> d) = [(''greeting'', PStr ''hello'')]"
    by simp
  have B: "\<exists>out wdef1 run_inputs1.
      run ?F ?reg readonly_workflow ?ri False = Some (out, wdef1, run_inputs1) \<and>
      run_inputs1 = [(''greeting'', PStr ''hello'')] \<and>
      map_option fst (run ?F ?reg wdef1 (Some run_inputs1) False) = Some ?hello"
    apply (rule exI [of _ out2], rule exI [of _ wdef2], rule exI [of _ run_inputs2])
    apply (intro conjI)
      apply (rule r2)
     apply (rule trans [OF t4 [THEN conjunct1] same])
    apply (rule trans [OF t4 [THEN conjunct2] live])
    done
  from v A B show ?thesis by (intro conjI) assumption+
qed

theorem dry_run_placeholders_leak_counterexample:
  "map_option (snd \<circ> snd)
     (run example_builtins (registered_steps example_builtins no_llm) readonly_workflow
        (Some [(''greeting'', PStr ''hello'')]) True)
     = Some [(''greeting'', PStr ''dummy'')] \<and>
   map_option fst
     (run example_builtins (registered_steps example_builtins no_llm)
        (fst (snd (the (run example_builtins (registered_steps example_builtins no_llm)
                          readonly_workflow (Some [(''greeting'', PStr ''hello'')]) True))))
        (Some (snd (snd (the (run example_builtins (registered_steps example_builtins no_llm)
                                readonly_workflow (Some [(''greeting'', PStr ''hello'')]) True)))))
        False)
     = Some (Inr \<lparr> rr_status = SUCCESS,
                   rr_result =
                     [\<lparr> sr_step_name = ''echo'', sr_step_type = ''DummyStep'',
                        sr_status = STEP_SUCCESS, sr_status_reason = None,
                        sr_inputs = [(new_Parameter ''input'' STRING)\<lparr>p_value := PStr ''dummy''\<rparr>],
                        sr_outputs = [(new_Parameter ''output'' STRING)\<lparr>p_value := PStr ''dummy''\<rparr>] \<rparr>] \<rparr>) \<and>
   map_option fst
     (run example_builtins (registered_steps example_builtins no_llm) readonly_workflow
        (Some [(''greeting'', PStr ''hello'')]) False)
     = Some (Inr \<lparr> rr_status = SUCCESS,
                   rr_result =
                     [\<lparr> sr_step_name = ''echo'', sr_step_type = ''DummyStep'',
                        sr_status = STEP_SUCCESS, sr_status_reason = None,
                        sr_inputs = [(new_Parameter ''input'' STRING)\<lparr>p_value := PStr ''hello''\<rparr>],
                        sr_outputs = [(new_Parameter ''output'' STRING)\<lparr>p_value := PStr ''hello''\<rparr>] \<rparr>] \<rparr>)"
  by (simp add: readonly_workflow_def greeting_input_def model_eval Let_def fill_loop.simps
        get_dry_run_value_def value_validation_def)

end
